theory Spec2Isabelle
  imports Complex_Main "HOL-Library.AList"
begin

section \<open>QNN quantization configuration: data model\<close>

text \<open>
  The development embeds \<^verbatim>\<open>quant_config.py\<close> of the QNN execution provider
  (\<^verbatim>\<open>onnxruntime/python/tools/quantization/execution_providers/qnn\<close>).

  Conventions of the embedding:
  \<^item> a Python \<^verbatim>\<open>dict\<close> that the code iterates over (the override table, the table of
    type requests) is an association list in insertion order; \<open>map_of\<close> is the lookup and
    \<open>AList.update\<close> is item assignment (it replaces the value of an existing key in place
    and appends a new key at the end, as a Python dict does). A Python dict has no
    duplicate keys, which is the hypothesis \<open>distinct (map fst t)\<close> of the theorems;
  \<^item> a dict that is only looked up (producers, consumers, initializers, value infos) is a
    map;
  \<^item> an override record (a dict with string keys) is a record of optional fields, one for
    each key the code reads or writes;
  \<^item> every \<^verbatim>\<open>raise\<close>, failed \<^verbatim>\<open>assert\<close>, missing key and out-of-range index is a value
    \<open>Inl e\<close> of the result; the table mutated so far is dropped with the exception, since
    the table is local to \<^verbatim>\<open>get_qnn_qdq_config\<close>;
  \<^item> the table is a value: no two entries share a record object.
\<close>

text \<open>
  Modelled from the spec: the enumeration \<^verbatim>\<open>QuantType\<close> is imported from
  \<^verbatim>\<open>quant_utils\<close>, which is not part of the sources at hand. The spec describes a closed
  enumeration of the narrow (8-bit) and wide (16-bit) signed and unsigned types; these
  are the four members the code names.
\<close>

datatype QuantType = QInt8 | QUInt8 | QInt16 | QUInt16

definition Q16_TYPES :: "QuantType set" where
  "Q16_TYPES = {QInt16, QUInt16}"

definition Q8_TYPES :: "QuantType set" where
  "Q8_TYPES = {QInt8, QUInt8}"

definition OP_TYPES_TO_EXCLUDE :: "string set" where
  "OP_TYPES_TO_EXCLUDE = {''Cast''}"

text \<open>
  \<^verbatim>\<open>onnx.TensorProto.FLOAT\<close>, the element type code of 32-bit floats. The code only
  compares element types with it, so its value plays no role below.
\<close>

definition FLOAT :: nat where
  "FLOAT = 1"

datatype error =
    ValueError string
  | KeyError string
  | IndexError
  | TypeError
  | AssertionError string

text \<open>
  The \<^verbatim>\<open>convert\<close> sub-dictionary of an override record. The type of the receiver set
  is a parameter: it is a set of node names here, and the address of a set object in
  the model with a store below.
\<close>

record 's convert_rec =
  cv_quant_type :: "QuantType option"
  recv_nodes :: "'s option"

type_synonym convert_dict = "string set convert_rec"

text \<open>
  One override record. The scale pinned by the code is \<^verbatim>\<open>np.float32\<close> of \<open>1/65536\<close> or
  \<open>1/32768\<close>: both are powers of two and exactly representable, so the field holds the
  number itself. The zero points pinned by the code, \<open>0\<close> and \<open>32768\<close>, are in range of
  their \<^verbatim>\<open>uint16\<close> or \<^verbatim>\<open>int16\<close> array types (\<open>32768\<close> only occurs as \<^verbatim>\<open>uint16\<close>), so the
  field holds the integer.
\<close>

record 'c override_rec =
  quant_type :: "QuantType option"
  symmetric :: "bool option"
  scale :: "real option"
  zero_point :: "int option"
  reduce_range :: "bool option"
  rmin :: "real option"
  rmax :: "real option"
  convert :: "'c option"

type_synonym override = "convert_dict override_rec"

definition empty_override :: "'c override_rec" where
  "empty_override = \<lparr>quant_type = None, symmetric = None, scale = None, zero_point = None,
     reduce_range = None, rmin = None, rmax = None, convert = None\<rparr>"

type_synonym overrides = "(string \<times> override list) list"

record node =
  op_type :: string
  name :: string
  input :: "string list"
  output' :: "string list"

text \<open>
  An initializer is represented by its \<^verbatim>\<open>data_type\<close>; a value info by
  \<open>Some elem_type\<close> when its type has the field \<^verbatim>\<open>tensor_type\<close> and by \<open>None\<close> otherwise.
\<close>

type_synonym initializers = "string \<rightharpoonup> nat"
type_synonym value_infos = "string \<rightharpoonup> nat option"

record TensorTypeRequest =
  producer_type :: "QuantType option"
  consumers :: "(QuantType \<times> string set) option"

type_synonym type_requests = "(string \<times> TensorTypeRequest) list"

section \<open>The helper functions\<close>

definition is_tensor_quantizable :: "string \<Rightarrow> value_infos \<Rightarrow> initializers \<Rightarrow> bool" where
  "is_tensor_quantizable tensor_name value_infos name_to_initializer =
     (case name_to_initializer tensor_name of
        Some data_type \<Rightarrow> data_type = FLOAT
      | None \<Rightarrow>
          (case value_infos tensor_name of
             Some (Some elem_type) \<Rightarrow> elem_type = FLOAT
           | _ \<Rightarrow> False))"

text \<open>\<^verbatim>\<open>d[k]\<close> on the override table and \<^verbatim>\<open>xs[0]\<close> on a list of records.\<close>

definition getitem :: "overrides \<Rightarrow> string \<Rightarrow> error + override list" where
  "getitem tensor_quant_overrides tensor_name =
     (case map_of tensor_quant_overrides tensor_name of
        None \<Rightarrow> Inl (KeyError tensor_name)
      | Some override_list \<Rightarrow> Inr override_list)"

definition get_output_activation_qtype :: "string \<Rightarrow> overrides \<Rightarrow> QuantType \<Rightarrow> error + QuantType" where
  "get_output_activation_qtype tensor_name tensor_quant_overrides activation_type =
     (case map_of tensor_quant_overrides tensor_name of
        None \<Rightarrow> Inr activation_type
      | Some override_list \<Rightarrow>
          if length override_list > 1
          then Inl (ValueError ''Do not yet support per-tensor quantization'')
          else (case override_list of
                  [] \<Rightarrow> Inl IndexError
                | ov # _ \<Rightarrow> Inr (case quant_type ov of None \<Rightarrow> activation_type | Some q \<Rightarrow> q)))"

text \<open>
  The first statement of the three setters: a missing or empty entry becomes \<^verbatim>\<open>[{}]\<close>
  (or the list of one given record).
\<close>

definition ensure_entry :: "overrides \<Rightarrow> string \<Rightarrow> override \<Rightarrow> overrides" where
  "ensure_entry tensor_quant_overrides tensor_name fresh =
     (if map_of tensor_quant_overrides tensor_name = None
         \<or> map_of tensor_quant_overrides tensor_name = Some []
      then AList.update tensor_name [fresh] tensor_quant_overrides
      else tensor_quant_overrides)"

definition set_weight_type :: "overrides \<Rightarrow> string \<Rightarrow> QuantType \<Rightarrow> bool \<Rightarrow> error + overrides" where
  "set_weight_type tensor_quant_overrides tensor_name weight_type weight_symmetric =
     (let tqo = ensure_entry tensor_quant_overrides tensor_name empty_override in
      case getitem tqo tensor_name of
        Inl e \<Rightarrow> Inl e
      | Inr override_list \<Rightarrow>
          if length override_list > 1
          then Inl (ValueError ''Do not yet support per-tensor quantization'')
          else (case override_list of
                  [] \<Rightarrow> Inl IndexError
                | ov # rest \<Rightarrow>
                    if quant_type ov = None \<and> symmetric ov = None
                    then Inr (AList.update tensor_name
                           (ov\<lparr>quant_type := Some weight_type,
                               symmetric := Some weight_symmetric\<rparr> # rest) tqo)
                    else Inr tqo))"

text \<open>
  \<^verbatim>\<open>set(overrides).intersection({"scale", "zero_point", "symmetric", "reduce_range",
  "rmin", "rmax"})\<close> is not empty.
\<close>

definition range_keys_present :: "'c override_rec \<Rightarrow> bool" where
  "range_keys_present ov =
     (scale ov \<noteq> None \<or> zero_point ov \<noteq> None \<or> symmetric ov \<noteq> None
      \<or> reduce_range ov \<noteq> None \<or> rmin ov \<noteq> None \<or> rmax ov \<noteq> None)"

text \<open>
  \<^verbatim>\<open>_set_scale_zero_point\<close>. The warning it prints when the record already has a
  range-related key is not part of the result; the table is returned as it is then (with
  \<^verbatim>\<open>quant_type\<close> filled in if it was absent).
\<close>

definition set_scale_zero_point ::
  "overrides \<Rightarrow> string \<Rightarrow> QuantType \<Rightarrow> real \<Rightarrow> int \<Rightarrow> error + overrides" where
  "set_scale_zero_point tensor_quant_overrides tensor_name qtype scl zp =
     (let tqo = ensure_entry tensor_quant_overrides tensor_name empty_override in
      case getitem tqo tensor_name of
        Inl e \<Rightarrow> Inl e
      | Inr override_list \<Rightarrow>
          if length override_list > 1
          then Inl (ValueError ''Do not yet support per-tensor quantization'')
          else (case override_list of
                  [] \<Rightarrow> Inl IndexError
                | ov # rest \<Rightarrow>
                    let ov1 = (if quant_type ov = None then ov\<lparr>quant_type := Some qtype\<rparr> else ov)
                    in if quant_type ov1 \<noteq> Some qtype
                       then Inl (AssertionError ''Unexpected quant_type when overridding zp/scale'')
                       else if range_keys_present ov1
                       then Inr (AList.update tensor_name (ov1 # rest) tqo)
                       else Inr (AList.update tensor_name
                              (ov1\<lparr>zero_point := Some zp, scale := Some scl\<rparr> # rest) tqo)))"

definition add_to_convert_recv_nodes ::
  "overrides \<Rightarrow> string \<Rightarrow> QuantType \<Rightarrow> QuantType \<Rightarrow> string set \<Rightarrow> error + overrides" where
  "add_to_convert_recv_nodes tensor_quant_overrides tensor_name prod_type consumer_type consumer_names =
     (let tqo = ensure_entry tensor_quant_overrides tensor_name
                  (empty_override\<lparr>quant_type := Some prod_type\<rparr>) in
      case getitem tqo tensor_name of
        Inl e \<Rightarrow> Inl e
      | Inr override_list \<Rightarrow>
          (case override_list of
             [] \<Rightarrow> Inl IndexError
           | ov # rest \<Rightarrow>
               let cd = (case convert ov of
                           None \<Rightarrow> \<lparr>cv_quant_type = Some consumer_type, recv_nodes = None\<rparr>
                         | Some c \<Rightarrow> c)
               in (case cv_quant_type cd of
                     None \<Rightarrow> Inl (KeyError ''quant_type'')
                   | Some ct \<Rightarrow>
                       if consumer_type \<noteq> ct
                       then Inl (AssertionError ''Consumer type doesn't match convert type'')
                       else
                         let old = (case recv_nodes cd of None \<Rightarrow> {} | Some s \<Rightarrow> s)
                         in Inr (AList.update tensor_name
                              (ov\<lparr>convert := Some (cd\<lparr>recv_nodes := Some (old \<union> consumer_names)\<rparr>)\<rparr>
                                 # rest) tqo))))"

definition check_not_in_convert_recv_nodes :: "overrides \<Rightarrow> string \<Rightarrow> string set \<Rightarrow> bool" where
  "check_not_in_convert_recv_nodes tensor_quant_overrides tensor_name consumer_names =
     (case map_of tensor_quant_overrides tensor_name of
        None \<Rightarrow> True
      | Some [] \<Rightarrow> True
      | Some (ov # _) \<Rightarrow>
          (case convert ov of
             None \<Rightarrow> True
           | Some cd \<Rightarrow>
               (case recv_nodes cd of
                  None \<Rightarrow> True
                | Some s \<Rightarrow> s \<inter> consumer_names = {})))"

definition get_input_activation_qtype ::
  "overrides \<Rightarrow> string \<Rightarrow> string \<Rightarrow> QuantType \<Rightarrow> error + QuantType" where
  "get_input_activation_qtype tensor_quant_overrides input_name node_name activation_type =
     (case map_of tensor_quant_overrides input_name of
        None \<Rightarrow> Inr activation_type
      | Some [] \<Rightarrow> Inr activation_type
      | Some (ov # _) \<Rightarrow>
          let producer_type = (case quant_type ov of None \<Rightarrow> activation_type | Some q \<Rightarrow> q)
          in (case convert ov of
                None \<Rightarrow> Inr producer_type
              | Some cd \<Rightarrow>
                  (case recv_nodes cd of
                     None \<Rightarrow>
                       (case cv_quant_type cd of
                          None \<Rightarrow> Inl (KeyError ''quant_type'')
                        | Some ct \<Rightarrow> Inr ct)
                   | Some s \<Rightarrow>
                       if node_name \<in> s
                       then (case cv_quant_type cd of
                               None \<Rightarrow> Inl (KeyError ''quant_type'')
                             | Some ct \<Rightarrow> Inr ct)
                       else Inr producer_type)))"

section \<open>The resolver of type requests\<close>

text \<open>
  The body of the inner loop of the scan (\<^verbatim>\<open>for input_name in node.input\<close>): the
  consumer side of a type request. The set of a new request is a fresh empty set.
\<close>

definition add_consumer_request ::
  "string \<Rightarrow> QuantType \<Rightarrow> string \<Rightarrow> value_infos \<Rightarrow> initializers \<Rightarrow> type_requests
     \<Rightarrow> error + type_requests" where
  "add_consumer_request input_name qtype node_name value_infos name_to_initializer reqs =
     (if input_name \<noteq> [] \<and> name_to_initializer input_name = None
         \<and> is_tensor_quantizable input_name value_infos name_to_initializer
      then
        let reqs1 = (if map_of reqs input_name = None
                     then AList.update input_name \<lparr>producer_type = None, consumers = None\<rparr> reqs
                     else reqs)
        in (case map_of reqs1 input_name of
              None \<Rightarrow> Inl (KeyError input_name)
            | Some req \<Rightarrow>
                let req1 = (if consumers req = None
                            then req\<lparr>consumers := Some (qtype, {})\<rparr> else req)
                in (case consumers req1 of
                      None \<Rightarrow> Inl TypeError
                    | Some (ctype, names) \<Rightarrow>
                        if ctype \<noteq> qtype
                        then Inl (ValueError (''Tensor '' @ input_name
                                    @ '' has consumers requesting different types.''))
                        else Inr (AList.update input_name
                               (req1\<lparr>consumers := Some (ctype, insert node_name names)\<rparr>) reqs1)))
      else Inr reqs)"

fun add_consumer_requests ::
  "string list \<Rightarrow> QuantType \<Rightarrow> string \<Rightarrow> value_infos \<Rightarrow> initializers \<Rightarrow> type_requests
     \<Rightarrow> error + type_requests" where
  "add_consumer_requests [] qtype node_name value_infos name_to_initializer reqs = Inr reqs"
| "add_consumer_requests (input_name # rest) qtype node_name value_infos name_to_initializer reqs =
     (case add_consumer_request input_name qtype node_name value_infos name_to_initializer reqs of
        Inl e \<Rightarrow> Inl e
      | Inr reqs1 \<Rightarrow>
          add_consumer_requests rest qtype node_name value_infos name_to_initializer reqs1)"

text \<open>The producer side of a type request (lines 168 to 174).\<close>

definition add_producer_request :: "string \<Rightarrow> QuantType \<Rightarrow> type_requests \<Rightarrow> error + type_requests" where
  "add_producer_request tensor_name qtype reqs =
     (case map_of reqs tensor_name of
        None \<Rightarrow> Inr (AList.update tensor_name \<lparr>producer_type = Some qtype, consumers = None\<rparr> reqs)
      | Some req \<Rightarrow>
          if producer_type req \<noteq> None
          then Inl (ValueError (''Tensor '' @ tensor_name @ '' has multiple types.''))
          else Inr (AList.update tensor_name (req\<lparr>producer_type := Some qtype\<rparr>) reqs))"

text \<open>
  The body of the scan (\<^verbatim>\<open>for tensor_name, override_list in
  tensor_quant_overrides.items()\<close>). The producer is looked up for every entry that is
  not skipped, before the type is compared.
\<close>

definition scan_entry ::
  "string \<times> override list \<Rightarrow> QuantType \<Rightarrow> value_infos \<Rightarrow> initializers \<Rightarrow> (string \<rightharpoonup> node)
     \<Rightarrow> type_requests \<Rightarrow> error + type_requests" where
  "scan_entry entry activation_type value_infos name_to_initializer producers reqs =
     (let tensor_name = fst entry; override_list = snd entry in
      if \<not> is_tensor_quantizable tensor_name value_infos name_to_initializer then Inr reqs
      else if name_to_initializer tensor_name \<noteq> None then Inr reqs
      else if override_list = [] \<or> length override_list > 1 then Inr reqs
      else
        let ov = hd override_list;
            qtype = (case quant_type ov of None \<Rightarrow> activation_type | Some q \<Rightarrow> q)
        in (case producers tensor_name of
              None \<Rightarrow> Inl (KeyError tensor_name)
            | Some nd \<Rightarrow>
                if qtype \<noteq> activation_type \<and> convert ov = None
                then (case add_producer_request tensor_name qtype reqs of
                        Inl e \<Rightarrow> Inl e
                      | Inr reqs1 \<Rightarrow>
                          add_consumer_requests (input nd) qtype (name nd)
                            value_infos name_to_initializer reqs1)
                else Inr reqs))"

fun scan_overrides ::
  "overrides \<Rightarrow> QuantType \<Rightarrow> value_infos \<Rightarrow> initializers \<Rightarrow> (string \<rightharpoonup> node)
     \<Rightarrow> type_requests \<Rightarrow> error + type_requests" where
  "scan_overrides [] activation_type value_infos name_to_initializer producers reqs = Inr reqs"
| "scan_overrides (entry # rest) activation_type value_infos name_to_initializer producers reqs =
     (case scan_entry entry activation_type value_infos name_to_initializer producers reqs of
        Inl e \<Rightarrow> Inl e
      | Inr reqs1 \<Rightarrow>
          scan_overrides rest activation_type value_infos name_to_initializer producers reqs1)"

text \<open>
  \<^verbatim>\<open>tensor_quant_overrides[tensor_name][0]["convert"] = {"quant_type": activation_type}\<close>
\<close>

definition set_convert_default :: "overrides \<Rightarrow> string \<Rightarrow> QuantType \<Rightarrow> error + overrides" where
  "set_convert_default tensor_quant_overrides tensor_name activation_type =
     (case getitem tensor_quant_overrides tensor_name of
        Inl e \<Rightarrow> Inl e
      | Inr [] \<Rightarrow> Inl IndexError
      | Inr (ov # rest) \<Rightarrow>
          Inr (AList.update tensor_name
                (ov\<lparr>convert := Some \<lparr>cv_quant_type = Some activation_type, recv_nodes = None\<rparr>\<rparr>
                   # rest) tensor_quant_overrides))"

text \<open>
  The body of the second loop (\<^verbatim>\<open>for tensor_name, type_req in type_requests.items()\<close>).
  A pair \<^verbatim>\<open>(type, set)\<close> is true in Python, so \<^verbatim>\<open>not type_req.consumers\<close> holds exactly
  when the field is \<^verbatim>\<open>None\<close>. The message of the error of line 211 is not an f-string:
  it is the text between the quotes as it stands.
\<close>

definition process_request ::
  "string \<times> TensorTypeRequest \<Rightarrow> QuantType \<Rightarrow> (string \<rightharpoonup> node list) \<Rightarrow> overrides
     \<Rightarrow> error + overrides" where
  "process_request item activation_type consumers_of tensor_quant_overrides =
     (let tensor_name = fst item; type_req = snd item in
      if producer_type type_req \<noteq> None \<and> consumers type_req = None
      then set_convert_default tensor_quant_overrides tensor_name activation_type
      else if producer_type type_req = None
      then (case get_output_activation_qtype tensor_name tensor_quant_overrides activation_type of
              Inl e \<Rightarrow> Inl e
            | Inr prod_type \<Rightarrow>
                (case consumers type_req of
                   None \<Rightarrow> Inl TypeError
                 | Some (consumer_type, names) \<Rightarrow>
                     if prod_type \<noteq> consumer_type
                     then add_to_convert_recv_nodes tensor_quant_overrides tensor_name
                            prod_type consumer_type names
                     else if \<not> check_not_in_convert_recv_nodes tensor_quant_overrides
                                 tensor_name names
                     then Inl (ValueError
                       ''Tensor override for '{tensor_name}' converts the type for consumers that need the original type.'')
                     else Inr tensor_quant_overrides))
      else (case (producer_type type_req, consumers type_req) of
              (Some prod_type, Some (consumer_type, names)) \<Rightarrow>
                if prod_type \<noteq> consumer_type
                then add_to_convert_recv_nodes tensor_quant_overrides tensor_name
                       prod_type consumer_type names
                else (case consumers_of tensor_name of
                        None \<Rightarrow> Inl (KeyError tensor_name)
                      | Some nodes \<Rightarrow>
                          let all_consumers = set (map name nodes);
                              consumers_for_original_type = all_consumers - names
                          in if consumers_for_original_type = {}
                             then (case getitem tensor_quant_overrides tensor_name of
                                     Inl e \<Rightarrow> Inl e
                                   | Inr [] \<Rightarrow> Inl IndexError
                                   | Inr (ov # _) \<Rightarrow>
                                       if convert ov \<noteq> None then Inl (AssertionError [])
                                       else Inr tensor_quant_overrides)
                             else add_to_convert_recv_nodes tensor_quant_overrides tensor_name
                                    prod_type activation_type consumers_for_original_type)
            | _ \<Rightarrow> Inl TypeError))"

fun process_requests ::
  "type_requests \<Rightarrow> QuantType \<Rightarrow> (string \<rightharpoonup> node list) \<Rightarrow> overrides \<Rightarrow> error + overrides" where
  "process_requests [] activation_type consumers_of tensor_quant_overrides =
     Inr tensor_quant_overrides"
| "process_requests (item # rest) activation_type consumers_of tensor_quant_overrides =
     (case process_request item activation_type consumers_of tensor_quant_overrides of
        Inl e \<Rightarrow> Inl e
      | Inr tqo \<Rightarrow> process_requests rest activation_type consumers_of tqo)"

definition add_qtype_converts ::
  "overrides \<Rightarrow> QuantType \<Rightarrow> value_infos \<Rightarrow> initializers \<Rightarrow> (string \<rightharpoonup> node)
     \<Rightarrow> (string \<rightharpoonup> node list) \<Rightarrow> error + overrides" where
  "add_qtype_converts tensor_quant_overrides activation_type value_infos name_to_initializer
       producers consumers_of =
     (case scan_overrides tensor_quant_overrides activation_type value_infos name_to_initializer
             producers [] of
        Inl e \<Rightarrow> Inl e
      | Inr reqs \<Rightarrow> process_requests reqs activation_type consumers_of tensor_quant_overrides)"

section \<open>The operator policy and the configuration\<close>

text \<open>
  The loop over the inputs of a \<^verbatim>\<open>MatMul\<close> node: the state is the pair
  \<^verbatim>\<open>(input_16bit_act, input_wgt)\<close>, \<open>None\<close> for Python's \<^verbatim>\<open>None\<close>.
\<close>

fun matmul_inputs ::
  "string list \<Rightarrow> overrides \<Rightarrow> string \<Rightarrow> QuantType \<Rightarrow> initializers
     \<Rightarrow> string option \<times> string option \<Rightarrow> error + (string option \<times> string option)" where
  "matmul_inputs [] tqo node_name activation_type name_to_initializer st = Inr st"
| "matmul_inputs (input_name # rest) tqo node_name activation_type name_to_initializer st =
     (if name_to_initializer input_name = None
      then (case get_input_activation_qtype tqo input_name node_name activation_type of
              Inl e \<Rightarrow> Inl e
            | Inr qtype \<Rightarrow>
                matmul_inputs rest tqo node_name activation_type name_to_initializer
                  (if qtype \<in> Q16_TYPES then (Some input_name, snd st) else st))
      else matmul_inputs rest tqo node_name activation_type name_to_initializer
             (fst st, Some input_name))"

text \<open>Python's truth value of a variable that holds \<^verbatim>\<open>None\<close> or a string.\<close>

definition truthy :: "string option \<Rightarrow> bool" where
  "truthy v = (case v of None \<Rightarrow> False | Some s \<Rightarrow> s \<noteq> [])"

text \<open>
  The loop over the inputs of a \<^verbatim>\<open>LayerNormalization\<close> node, which stops at the first
  input that is not an initializer and has a 16-bit type.
\<close>

fun has_q16_activation ::
  "string list \<Rightarrow> overrides \<Rightarrow> string \<Rightarrow> QuantType \<Rightarrow> initializers \<Rightarrow> error + bool" where
  "has_q16_activation [] tqo node_name activation_type name_to_initializer = Inr False"
| "has_q16_activation (input_name # rest) tqo node_name activation_type name_to_initializer =
     (if name_to_initializer input_name = None
      then (case get_input_activation_qtype tqo input_name node_name activation_type of
              Inl e \<Rightarrow> Inl e
            | Inr qtype \<Rightarrow>
                if qtype \<in> Q16_TYPES then Inr True
                else has_q16_activation rest tqo node_name activation_type name_to_initializer)
      else has_q16_activation rest tqo node_name activation_type name_to_initializer)"

text \<open>The body of \<^verbatim>\<open>for i in range(2)\<close>; \<^verbatim>\<open>node.input[i]\<close> raises when \<open>i\<close> is out of range.\<close>

definition promote_input ::
  "nat \<Rightarrow> node \<Rightarrow> initializers \<Rightarrow> QuantType \<Rightarrow> bool \<Rightarrow> overrides \<Rightarrow> error + overrides" where
  "promote_input i nd name_to_initializer weight_type weight_symmetric tqo =
     (if i < length (input nd)
      then (let input_name = input nd ! i in
            if name_to_initializer input_name \<noteq> None
            then set_weight_type tqo input_name weight_type weight_symmetric
            else Inr tqo)
      else Inl IndexError)"

text \<open>The two arms of the \<^verbatim>\<open>Sigmoid\<close> and \<^verbatim>\<open>Tanh\<close> rules.\<close>

definition pin_output ::
  "node \<Rightarrow> QuantType \<Rightarrow> real \<times> int \<Rightarrow> real \<times> int \<Rightarrow> overrides \<Rightarrow> error + overrides" where
  "pin_output nd activation_type unsigned16 signed16 tqo =
     (case output' nd of
        [] \<Rightarrow> Inl IndexError
      | output0 # _ \<Rightarrow>
          (case get_output_activation_qtype output0 tqo activation_type of
             Inl e \<Rightarrow> Inl e
           | Inr output_type \<Rightarrow>
               if output_type = QUInt16
               then set_scale_zero_point tqo output0 output_type (fst unsigned16) (snd unsigned16)
               else if output_type = QInt16
               then set_scale_zero_point tqo output0 output_type (fst signed16) (snd signed16)
               else Inr tqo))"

text \<open>The body of the policy loop (\<^verbatim>\<open>for node in model.graph.node\<close>, lines 283 to 355).\<close>

definition policy_node ::
  "node \<Rightarrow> QuantType \<Rightarrow> QuantType \<Rightarrow> initializers \<Rightarrow> overrides \<Rightarrow> error + overrides" where
  "policy_node nd activation_type weight_type name_to_initializer tqo =
     (if op_type nd = ''MatMul'' \<and> weight_type \<in> Q8_TYPES
      then (let weight_symmetric = (weight_type = QInt8) in
            case matmul_inputs (input nd) tqo (name nd) activation_type name_to_initializer
                   (None, None) of
              Inl e \<Rightarrow> Inl e
            | Inr (input_16bit_act, input_wgt) \<Rightarrow>
                (case input_wgt of
                   Some wgt \<Rightarrow>
                     if truthy input_16bit_act \<and> truthy input_wgt
                     then set_weight_type tqo wgt weight_type weight_symmetric
                     else Inr tqo
                 | None \<Rightarrow> Inr tqo))
      else if op_type nd = ''LayerNormalization'' \<and> weight_type \<in> Q8_TYPES
      then (let weight_symmetric = (weight_type = QInt8) in
            case has_q16_activation (input nd) tqo (name nd) activation_type name_to_initializer of
              Inl e \<Rightarrow> Inl e
            | Inr found \<Rightarrow>
                if found
                then (case promote_input 0 nd name_to_initializer weight_type weight_symmetric tqo of
                        Inl e \<Rightarrow> Inl e
                      | Inr tqo1 \<Rightarrow>
                          promote_input 1 nd name_to_initializer weight_type weight_symmetric tqo1)
                else Inr tqo)
      else if op_type nd = ''Sigmoid''
      then pin_output nd activation_type (1 / 65536, 0) (1 / 32768, 0) tqo
      else if op_type nd = ''Tanh''
      then pin_output nd activation_type (1 / 32768, 32768) (1 / 32768, 0) tqo
      else Inr tqo)"

fun policy_loop ::
  "node list \<Rightarrow> QuantType \<Rightarrow> QuantType \<Rightarrow> initializers \<Rightarrow> overrides \<Rightarrow> error + overrides" where
  "policy_loop [] activation_type weight_type name_to_initializer tqo = Inr tqo"
| "policy_loop (nd # rest) activation_type weight_type name_to_initializer tqo =
     (case policy_node nd activation_type weight_type name_to_initializer tqo of
        Inl e \<Rightarrow> Inl e
      | Inr tqo1 \<Rightarrow> policy_loop rest activation_type weight_type name_to_initializer tqo1)"

text \<open>
  The graph of the loaded model: its nodes, and the name and type code of its
  initializers, value infos, outputs and inputs, in the order of the file.
\<close>

record graph =
  graph_node :: "node list"
  graph_initializer :: "(string \<times> nat) list"
  graph_value_info :: "(string \<times> nat option) list"
  graph_output :: "(string \<times> nat option) list"
  graph_input :: "(string \<times> nat option) list"

text \<open>A dict comprehension over a list keeps the last value of a repeated key.\<close>

definition dict_of :: "('k \<times> 'v) list \<Rightarrow> ('k \<rightharpoonup> 'v)" where
  "dict_of kvs = map_of (rev kvs)"

fun add_consumers :: "string list \<Rightarrow> node \<Rightarrow> (string \<rightharpoonup> node list) \<Rightarrow> (string \<rightharpoonup> node list)" where
  "add_consumers [] nd consumers_of = consumers_of"
| "add_consumers (input_name # rest) nd consumers_of =
     (if input_name \<noteq> []
      then add_consumers rest nd
             (consumers_of(input_name \<mapsto>
                (case consumers_of input_name of None \<Rightarrow> [] | Some ns \<Rightarrow> ns) @ [nd]))
      else add_consumers rest nd consumers_of)"

fun add_producers :: "string list \<Rightarrow> node \<Rightarrow> (string \<rightharpoonup> node) \<Rightarrow> error + (string \<rightharpoonup> node)" where
  "add_producers [] nd producers = Inr producers"
| "add_producers (output_name # rest) nd producers =
     (if output_name = [] then Inl (AssertionError ''Node output name cannot be empty'')
      else if producers output_name \<noteq> None
      then Inl (AssertionError ''Tensor can only be generated by a single node'')
      else add_producers rest nd (producers(output_name \<mapsto> nd)))"

text \<open>The first loop over the nodes: operator types, consumers and producers.\<close>

fun index_nodes ::
  "node list \<Rightarrow> string set \<times> (string \<rightharpoonup> node list) \<times> (string \<rightharpoonup> node)
     \<Rightarrow> error + (string set \<times> (string \<rightharpoonup> node list) \<times> (string \<rightharpoonup> node))" where
  "index_nodes [] st = Inr st"
| "index_nodes (nd # rest) (op_types, consumers_of, producers) =
     (case add_producers (output' nd) nd producers of
        Inl e \<Rightarrow> Inl e
      | Inr producers1 \<Rightarrow>
          index_nodes rest
            (insert (op_type nd) op_types, add_consumers (input nd) nd consumers_of, producers1))"

text \<open>
  The part of the returned \<^verbatim>\<open>StaticQuantConfig\<close> that the function computes. The
  calibration data reader and method are passed through, and the option
  \<^verbatim>\<open>MinimumRealRange\<close> is a floating-point constant; they are left out.
  \<^verbatim>\<open>UseQDQContribOps\<close> is \<open>None\<close> when the key is absent.
\<close>

record StaticQuantConfig =
  activation_type_of :: QuantType
  weight_type_of :: QuantType
  op_types_to_quantize :: "string set"
  DedicatedQDQPair :: bool
  TensorQuantOverrides :: overrides
  UseQDQContribOps :: "bool option"

text \<open>
  \<^verbatim>\<open>copy.deepcopy(init_overrides) if init_overrides else {}\<close>: a value is its own copy;
  \<^verbatim>\<open>None\<close> and the empty dict both give the empty table.
\<close>

definition get_qnn_qdq_config ::
  "graph \<Rightarrow> QuantType \<Rightarrow> QuantType \<Rightarrow> overrides option \<Rightarrow> bool \<Rightarrow> bool
     \<Rightarrow> error + StaticQuantConfig" where
  "get_qnn_qdq_config model activation_type weight_type init_overrides add_converts per_channel =
     (if per_channel
      then Inl (ValueError ''QNN EP does not yet support per-channel quantization.'')
      else
        let name_to_initializer = dict_of (graph_initializer model);
            value_infos = dict_of (graph_value_info model @ graph_output model @ graph_input model)
        in (case index_nodes (graph_node model) ({}, Map.empty, Map.empty) of
              Inl e \<Rightarrow> Inl e
            | Inr (op_types, consumers_of, producers) \<Rightarrow>
                let tqo0 = (case init_overrides of None \<Rightarrow> [] | Some t \<Rightarrow> t) in
                (case (if tqo0 \<noteq> [] \<and> add_converts
                       then add_qtype_converts tqo0 activation_type value_infos
                              name_to_initializer producers consumers_of
                       else Inr tqo0) of
                   Inl e \<Rightarrow> Inl e
                 | Inr tqo1 \<Rightarrow>
                     (case policy_loop (graph_node model) activation_type weight_type
                             name_to_initializer tqo1 of
                        Inl e \<Rightarrow> Inl e
                      | Inr tqo2 \<Rightarrow>
                          Inr \<lparr>activation_type_of = activation_type,
                               weight_type_of = weight_type,
                               op_types_to_quantize = op_types - OP_TYPES_TO_EXCLUDE,
                               DedicatedQDQPair = False,
                               TensorQuantOverrides = tqo2,
                               UseQDQContribOps =
                                 (if activation_type \<in> Q16_TYPES \<or> weight_type \<in> Q16_TYPES
                                  then Some True else None)\<rparr>))))"

text \<open>The producer-side type recorded for a tensor in the table of requests, if any.\<close>

definition producer_request :: "type_requests \<Rightarrow> string \<Rightarrow> QuantType option" where
  "producer_request reqs t = (case map_of reqs t of None \<Rightarrow> None | Some rq \<Rightarrow> producer_type rq)"

text \<open>
  The tensors whose entry a policy rule may write for a node: an initializer among the
  inputs of a \<^verbatim>\<open>MatMul\<close>, an initializer among the first two inputs of a
  \<^verbatim>\<open>LayerNormalization\<close>, the first output of a \<^verbatim>\<open>Sigmoid\<close> or \<^verbatim>\<open>Tanh\<close>.
\<close>

definition policy_targets :: "node \<Rightarrow> initializers \<Rightarrow> string set" where
  "policy_targets nd name_to_initializer =
     (if op_type nd = ''MatMul''
      then {i \<in> set (input nd). name_to_initializer i \<noteq> None}
      else if op_type nd = ''LayerNormalization''
      then {i \<in> set (take 2 (input nd)). name_to_initializer i \<noteq> None}
      else if op_type nd = ''Sigmoid'' \<or> op_type nd = ''Tanh''
      then set (take 1 (output' nd))
      else {})"

text \<open>
  The record on which the setters work for a tensor: the first record of its entry, or
  the empty record that they create when the entry is missing or empty.
\<close>

definition current_record :: "overrides \<Rightarrow> string \<Rightarrow> override" where
  "current_record tqo t = (case map_of tqo t of Some (ov # _) \<Rightarrow> ov | _ \<Rightarrow> empty_override)"

text \<open>
  The scale and zero point that the specification gives for an operator and a 16-bit
  type (claim C4).
\<close>

definition pinned_values :: "string \<Rightarrow> QuantType \<Rightarrow> real \<times> int" where
  "pinned_values op q =
     (if op = ''Sigmoid'' \<and> q = QUInt16 then (1 / 65536, 0)
      else if op = ''Sigmoid'' \<and> q = QInt16 then (1 / 32768, 0)
      else if op = ''Tanh'' \<and> q = QUInt16 then (1 / 32768, 32768)
      else (1 / 32768, 0))"


text \<open>The consumer-side type recorded for a tensor in the table of requests, if any.\<close>

definition consumer_request :: "type_requests \<Rightarrow> string \<Rightarrow> QuantType option" where
  "consumer_request reqs x =
     (case map_of reqs x of None \<Rightarrow> None | Some rq \<Rightarrow> map_option fst (consumers rq))"

text \<open>
  An entry for which the scan records a producer-side request of type \<open>q\<close> and, through
  its producer, a consumer-side request of type \<open>q\<close> for the tensor \<open>x\<close>.
\<close>

definition requests_for ::
  "string \<times> override list \<Rightarrow> QuantType \<Rightarrow> string \<Rightarrow> QuantType \<Rightarrow> value_infos \<Rightarrow> initializers
     \<Rightarrow> (string \<rightharpoonup> node) \<Rightarrow> bool" where
  "requests_for entry q x activation_type value_infos name_to_initializer producers =
     (is_tensor_quantizable (fst entry) value_infos name_to_initializer
      \<and> name_to_initializer (fst entry) = None
      \<and> (case snd entry of
            [ov] \<Rightarrow> quant_type ov = Some q \<and> q \<noteq> activation_type \<and> convert ov = None
          | _ \<Rightarrow> False)
      \<and> (case producers (fst entry) of
            None \<Rightarrow> False
          | Some nd \<Rightarrow> x \<in> set (input nd))
      \<and> x \<noteq> [] \<and> name_to_initializer x = None
      \<and> is_tensor_quantizable x value_infos name_to_initializer)"

section \<open>Example graphs and tables\<close>

text \<open>
  A \<^verbatim>\<open>MatMul\<close> node with a 16-bit activation input and a weight whose override was
  set by the user.
\<close>

definition user_weight :: override where
  "user_weight = empty_override\<lparr>quant_type := Some QInt8\<rparr>"

definition user_weight_table :: overrides where
  "user_weight_table = [(''W'', [user_weight])]"

definition matmul_node :: node where
  "matmul_node = \<lparr>op_type = ''MatMul'', name = ''mm'', input = [''X'', ''W''], output' = [''Y'']\<rparr>"

definition weight_W :: initializers where
  "weight_W = [''W'' \<mapsto> FLOAT]"

text \<open>
  Tensor \<open>X\<close>, produced by \<open>N\<close> from \<open>I\<close>, feeds \<open>P\<close> and \<open>Q\<close>; \<open>P\<close> produces \<open>Y\<close>.
  The overrides give \<open>X\<close> and \<open>Y\<close> the type \<open>QInt16\<close>, so that \<open>P\<close> requests \<open>QInt16\<close>
  for \<open>X\<close> and \<open>Q\<close> requests nothing.
\<close>

definition wide_override :: override where
  "wide_override = empty_override\<lparr>quant_type := Some QInt16\<rparr>"

definition node_N :: node where
  "node_N = \<lparr>op_type = ''Relu'', name = ''N'', input = [''I''], output' = [''X'']\<rparr>"

definition node_P :: node where
  "node_P = \<lparr>op_type = ''Relu'', name = ''P'', input = [''X''], output' = [''Y'']\<rparr>"

definition node_Q :: node where
  "node_Q = \<lparr>op_type = ''Relu'', name = ''Q'', input = [''X''], output' = [''Z'']\<rparr>"

definition fork_value_infos :: value_infos where
  "fork_value_infos = [''I'' \<mapsto> Some FLOAT, ''X'' \<mapsto> Some FLOAT, ''Y'' \<mapsto> Some FLOAT,
     ''Z'' \<mapsto> Some FLOAT]"

definition fork_producers :: "string \<rightharpoonup> node" where
  "fork_producers = [''X'' \<mapsto> node_N, ''Y'' \<mapsto> node_P, ''Z'' \<mapsto> node_Q]"

definition fork_consumers :: "string \<rightharpoonup> node list" where
  "fork_consumers = [''I'' \<mapsto> [node_N], ''X'' \<mapsto> [node_P, node_Q]]"

definition fork_table :: overrides where
  "fork_table = [(''X'', [wide_override]), (''Y'', [wide_override])]"

definition fork_requests :: type_requests where
  "fork_requests =
     [(''X'', \<lparr>producer_type = Some QInt16, consumers = Some (QInt16, {''P''})\<rparr>),
      (''I'', \<lparr>producer_type = None, consumers = Some (QInt16, {''N''})\<rparr>),
      (''Y'', \<lparr>producer_type = Some QInt16, consumers = None\<rparr>)]"

definition fork_resolved :: overrides where
  "fork_resolved =
     [(''X'', [wide_override\<lparr>convert :=
                 Some \<lparr>cv_quant_type = Some QUInt8, recv_nodes = Some {''Q''}\<rparr>\<rparr>]),
      (''Y'', [wide_override\<lparr>convert :=
                 Some \<lparr>cv_quant_type = Some QUInt8, recv_nodes = None\<rparr>\<rparr>]),
      (''I'', [empty_override\<lparr>quant_type := Some QUInt8, convert :=
                 Some \<lparr>cv_quant_type = Some QInt16, recv_nodes = Some {''N''}\<rparr>\<rparr>])]"

text \<open>The same graph as a model, and the configuration computed for it.\<close>

definition fork_model :: graph where
  "fork_model = \<lparr>graph_node = [node_N, node_P, node_Q],
     graph_initializer = [],
     graph_value_info = [(''X'', Some FLOAT), (''Y'', Some FLOAT)],
     graph_output = [(''Y'', Some FLOAT), (''Z'', Some FLOAT)],
     graph_input = [(''I'', Some FLOAT)]\<rparr>"

definition fork_config :: StaticQuantConfig where
  "fork_config = \<lparr>activation_type_of = QUInt8, weight_type_of = QUInt8,
     op_types_to_quantize = {''Relu''}, DedicatedQDQPair = False,
     TensorQuantOverrides = fork_resolved, UseQDQContribOps = None\<rparr>"



text \<open>
  A table in which \<open>X\<close> keeps \<open>QInt16\<close> but is converted to \<open>QUInt8\<close> for its consumer
  \<open>P\<close>, while the override of \<open>Y\<close> makes \<open>P\<close> request \<open>QInt16\<close> for \<open>X\<close>.
\<close>

definition contradicting_table :: overrides where
  "contradicting_table =
     [(''X'', [wide_override\<lparr>convert :=
                 Some \<lparr>cv_quant_type = Some QUInt8, recv_nodes = Some {''P''}\<rparr>\<rparr>]),
      (''Y'', [wide_override])]"


text \<open>
  A \<^verbatim>\<open>Sigmoid\<close> node whose 16-bit output already has a scale and a zero point set by
  the user, and one whose output has the type only.
\<close>

definition sigmoid_node :: node where
  "sigmoid_node = \<lparr>op_type = ''Sigmoid'', name = ''sg'', input = [''X''], output' = [''Y'']\<rparr>"

definition user_scaled :: override where
  "user_scaled = empty_override\<lparr>quant_type := Some QUInt16, scale := Some (1 / 2),
     zero_point := Some 3\<rparr>"

definition unsigned16_override :: override where
  "unsigned16_override = empty_override\<lparr>quant_type := Some QUInt16\<rparr>"



text \<open>
  Conflicting requests on the example graph: the overrides of \<open>Y\<close> and \<open>Z\<close> make \<open>P\<close>
  request \<open>QInt16\<close> and \<open>Q\<close> request \<open>QUInt16\<close> for \<open>X\<close>. The graph input \<open>I\<close>, which no
  node produces, has an override too; the two tables differ in the place of its entry.
\<close>

definition conflict_input_first :: overrides where
  "conflict_input_first =
     [(''I'', [wide_override]), (''Y'', [wide_override]), (''Z'', [unsigned16_override])]"

definition conflict_input_last :: overrides where
  "conflict_input_last =
     [(''Y'', [wide_override]), (''Z'', [unsigned16_override]), (''I'', [wide_override])]"

section \<open>The override table as objects in a store\<close>

text \<open>
  The functions above treat the table as a value. Whether the table of the caller is
  changed depends on which objects the code writes, so the table handling of
  \<^verbatim>\<open>get_qnn_qdq_config\<close> is embedded a second time with the table as objects in a
  store: the table dict, the list of an entry, a record dict, a \<^verbatim>\<open>convert\<close> dict and a
  set of receiver names are objects at addresses, and they refer to each other by
  address. Every assignment of the code to a key of a dict and every \<^verbatim>\<open>update\<close> of a set
  is a \<open>put\<close> to the object it mutates; every dict, list or set literal is an
  \<open>alloc\<close>. What the code only reads (the scan of the table, the effective types, the
  truth value of the table) is computed by the functions above from the value that the
  store holds at the address of the table (\<open>read_table\<close>). A function returns the store
  also when it raises.
\<close>

type_synonym addr = nat

datatype obj =
    TableObj "(string \<times> addr) list"
  | ListObj "addr list"
  | RecordObj "addr override_rec"
  | ConvertObj "addr convert_rec"
  | SetObj "string set"

text \<open>The store: the objects, and the next address that the allocator hands out.\<close>

record store =
  objs :: "addr \<rightharpoonup> obj"
  next_addr :: addr

definition alloc :: "obj \<Rightarrow> store \<Rightarrow> addr \<times> store" where
  "alloc ob s = (next_addr s, s\<lparr>objs := (objs s)(next_addr s \<mapsto> ob), next_addr := Suc (next_addr s)\<rparr>)"

definition put :: "addr \<Rightarrow> obj \<Rightarrow> store \<Rightarrow> store" where
  "put a ob s = s\<lparr>objs := (objs s)(a \<mapsto> ob)\<rparr>"

text \<open>The addresses that an object holds.\<close>

definition ptrs :: "obj \<Rightarrow> addr set" where
  "ptrs ob =
     (case ob of
        TableObj kvs \<Rightarrow> snd ` set kvs
      | ListObj rs \<Rightarrow> set rs
      | RecordObj r \<Rightarrow> set_option (convert r)
      | ConvertObj c \<Rightarrow> set_option (recv_nodes c)
      | SetObj ns \<Rightarrow> {})"

subsection \<open>The value of a table in the store\<close>

definition read_set :: "store \<Rightarrow> addr \<Rightarrow> string set option" where
  "read_set s a = (case objs s a of Some (SetObj ns) \<Rightarrow> Some ns | _ \<Rightarrow> None)"

definition read_convert :: "store \<Rightarrow> addr \<Rightarrow> convert_dict option" where
  "read_convert s a =
     (case objs s a of
        Some (ConvertObj c) \<Rightarrow>
          (case recv_nodes c of
             None \<Rightarrow> Some \<lparr>cv_quant_type = cv_quant_type c, recv_nodes = None\<rparr>
           | Some sa \<Rightarrow>
               (case read_set s sa of
                  None \<Rightarrow> None
                | Some ns \<Rightarrow> Some \<lparr>cv_quant_type = cv_quant_type c, recv_nodes = Some ns\<rparr>))
      | _ \<Rightarrow> None)"

text \<open>A record with its \<^verbatim>\<open>convert\<close> entry replaced, the other keys as they are.\<close>

definition with_convert :: "'a override_rec \<Rightarrow> 'b option \<Rightarrow> 'b override_rec" where
  "with_convert r c = \<lparr>quant_type = quant_type r, symmetric = symmetric r, scale = scale r,
     zero_point = zero_point r, reduce_range = reduce_range r, rmin = rmin r, rmax = rmax r,
     convert = c\<rparr>"

definition read_record :: "store \<Rightarrow> addr \<Rightarrow> override option" where
  "read_record s a =
     (case objs s a of
        Some (RecordObj r) \<Rightarrow>
          (case convert r of
             None \<Rightarrow> Some (with_convert r None)
           | Some ca \<Rightarrow>
               (case read_convert s ca of
                  None \<Rightarrow> None
                | Some c \<Rightarrow> Some (with_convert r (Some c))))
      | _ \<Rightarrow> None)"

fun read_records :: "store \<Rightarrow> addr list \<Rightarrow> override list option" where
  "read_records s [] = Some []"
| "read_records s (a # rest) =
     (case read_record s a of
        None \<Rightarrow> None
      | Some r \<Rightarrow> (case read_records s rest of None \<Rightarrow> None | Some rs \<Rightarrow> Some (r # rs)))"

definition read_list :: "store \<Rightarrow> addr \<Rightarrow> override list option" where
  "read_list s a = (case objs s a of Some (ListObj rs) \<Rightarrow> read_records s rs | _ \<Rightarrow> None)"

fun read_entries :: "store \<Rightarrow> (string \<times> addr) list \<Rightarrow> overrides option" where
  "read_entries s [] = Some []"
| "read_entries s (kv # rest) =
     (case read_list s (snd kv) of
        None \<Rightarrow> None
      | Some ovs \<Rightarrow>
          (case read_entries s rest of None \<Rightarrow> None | Some es \<Rightarrow> Some ((fst kv, ovs) # es)))"

definition read_table :: "store \<Rightarrow> addr \<Rightarrow> overrides option" where
  "read_table s a = (case objs s a of Some (TableObj kvs) \<Rightarrow> read_entries s kvs | _ \<Rightarrow> None)"

subsection \<open>The deep copy\<close>

text \<open>
  \<^verbatim>\<open>copy.deepcopy\<close> keeps a memo of the objects that it has copied, keyed by their
  identity: an object that is reached a second time is not copied again, the copy made
  the first time is used. So two keys of the table that share one list, or two lists
  that share one record, share the copy too. Here the memo is a map from the address of
  an object to the address of its copy. A dict, list or set that is not in the memo is
  allocated anew with the copies of what it holds; the members of \<^verbatim>\<open>QuantType\<close>, the
  strings and the numbers are values. The objects of a table are layered (table, list,
  record, \<^verbatim>\<open>convert\<close> dict, set), so no object is reached from itself, and the copy of an
  object can be allocated after the copies of what it holds.
\<close>

type_synonym memo = "addr \<rightharpoonup> addr"

definition deepcopy_set :: "memo \<Rightarrow> store \<Rightarrow> addr \<Rightarrow> (error + addr) \<times> memo \<times> store" where
  "deepcopy_set m s a =
     (case m a of
        Some b \<Rightarrow> (Inr b, m, s)
      | None \<Rightarrow>
          (case objs s a of
             Some (SetObj ns) \<Rightarrow>
               (case alloc (SetObj ns) s of (b, s1) \<Rightarrow> (Inr b, m(a \<mapsto> b), s1))
           | _ \<Rightarrow> (Inl TypeError, m, s)))"

definition deepcopy_convert :: "memo \<Rightarrow> store \<Rightarrow> addr \<Rightarrow> (error + addr) \<times> memo \<times> store" where
  "deepcopy_convert m s a =
     (case m a of
        Some b \<Rightarrow> (Inr b, m, s)
      | None \<Rightarrow>
          (case objs s a of
             Some (ConvertObj c) \<Rightarrow>
               (case recv_nodes c of
                  None \<Rightarrow>
                    (case alloc (ConvertObj c) s of (b, s1) \<Rightarrow> (Inr b, m(a \<mapsto> b), s1))
                | Some sa \<Rightarrow>
                    (case deepcopy_set m s sa of
                       (Inl e, m1, s1) \<Rightarrow> (Inl e, m1, s1)
                     | (Inr sb, m1, s1) \<Rightarrow>
                         (case alloc (ConvertObj (c\<lparr>recv_nodes := Some sb\<rparr>)) s1 of
                            (b, s2) \<Rightarrow> (Inr b, m1(a \<mapsto> b), s2))))
           | _ \<Rightarrow> (Inl TypeError, m, s)))"

definition deepcopy_record :: "memo \<Rightarrow> store \<Rightarrow> addr \<Rightarrow> (error + addr) \<times> memo \<times> store" where
  "deepcopy_record m s a =
     (case m a of
        Some b \<Rightarrow> (Inr b, m, s)
      | None \<Rightarrow>
          (case objs s a of
             Some (RecordObj r) \<Rightarrow>
               (case convert r of
                  None \<Rightarrow>
                    (case alloc (RecordObj r) s of (b, s1) \<Rightarrow> (Inr b, m(a \<mapsto> b), s1))
                | Some ca \<Rightarrow>
                    (case deepcopy_convert m s ca of
                       (Inl e, m1, s1) \<Rightarrow> (Inl e, m1, s1)
                     | (Inr cb, m1, s1) \<Rightarrow>
                         (case alloc (RecordObj (r\<lparr>convert := Some cb\<rparr>)) s1 of
                            (b, s2) \<Rightarrow> (Inr b, m1(a \<mapsto> b), s2))))
           | _ \<Rightarrow> (Inl TypeError, m, s)))"

fun deepcopy_records :: "memo \<Rightarrow> store \<Rightarrow> addr list \<Rightarrow> (error + addr list) \<times> memo \<times> store" where
  "deepcopy_records m s [] = (Inr [], m, s)"
| "deepcopy_records m s (a # rest) =
     (case deepcopy_record m s a of
        (Inl e, m1, s1) \<Rightarrow> (Inl e, m1, s1)
      | (Inr b, m1, s1) \<Rightarrow>
          (case deepcopy_records m1 s1 rest of
             (Inl e, m2, s2) \<Rightarrow> (Inl e, m2, s2)
           | (Inr bs, m2, s2) \<Rightarrow> (Inr (b # bs), m2, s2)))"

definition deepcopy_list :: "memo \<Rightarrow> store \<Rightarrow> addr \<Rightarrow> (error + addr) \<times> memo \<times> store" where
  "deepcopy_list m s a =
     (case m a of
        Some b \<Rightarrow> (Inr b, m, s)
      | None \<Rightarrow>
          (case objs s a of
             Some (ListObj rs) \<Rightarrow>
               (case deepcopy_records m s rs of
                  (Inl e, m1, s1) \<Rightarrow> (Inl e, m1, s1)
                | (Inr bs, m1, s1) \<Rightarrow>
                    (case alloc (ListObj bs) s1 of (b, s2) \<Rightarrow> (Inr b, m1(a \<mapsto> b), s2)))
           | _ \<Rightarrow> (Inl TypeError, m, s)))"

fun deepcopy_entries ::
  "memo \<Rightarrow> store \<Rightarrow> (string \<times> addr) list \<Rightarrow> (error + (string \<times> addr) list) \<times> memo \<times> store" where
  "deepcopy_entries m s [] = (Inr [], m, s)"
| "deepcopy_entries m s (kv # rest) =
     (case deepcopy_list m s (snd kv) of
        (Inl e, m1, s1) \<Rightarrow> (Inl e, m1, s1)
      | (Inr b, m1, s1) \<Rightarrow>
          (case deepcopy_entries m1 s1 rest of
             (Inl e, m2, s2) \<Rightarrow> (Inl e, m2, s2)
           | (Inr kvs, m2, s2) \<Rightarrow> (Inr ((fst kv, b) # kvs), m2, s2)))"

definition deepcopy_table :: "memo \<Rightarrow> store \<Rightarrow> addr \<Rightarrow> (error + addr) \<times> memo \<times> store" where
  "deepcopy_table m s a =
     (case m a of
        Some b \<Rightarrow> (Inr b, m, s)
      | None \<Rightarrow>
          (case objs s a of
             Some (TableObj kvs) \<Rightarrow>
               (case deepcopy_entries m s kvs of
                  (Inl e, m1, s1) \<Rightarrow> (Inl e, m1, s1)
                | (Inr kvs', m1, s1) \<Rightarrow>
                    (case alloc (TableObj kvs') s1 of (b, s2) \<Rightarrow> (Inr b, m1(a \<mapsto> b), s2)))
           | _ \<Rightarrow> (Inl TypeError, m, s)))"

subsection \<open>The setters on the store\<close>

text \<open>\<^verbatim>\<open>tensor_quant_overrides[tensor_name]\<close>: the addresses of the records of an entry.\<close>

definition lookup_list :: "store \<Rightarrow> addr \<Rightarrow> string \<Rightarrow> error + addr list" where
  "lookup_list s tbl tensor_name =
     (case objs s tbl of
        Some (TableObj kvs) \<Rightarrow>
          (case map_of kvs tensor_name of
             None \<Rightarrow> Inl (KeyError tensor_name)
           | Some la \<Rightarrow> (case objs s la of Some (ListObj rs) \<Rightarrow> Inr rs | _ \<Rightarrow> Inl TypeError))
      | _ \<Rightarrow> Inl TypeError)"

text \<open>
  \<^verbatim>\<open>if tensor_name not in tensor_quant_overrides or not
  tensor_quant_overrides[tensor_name]: tensor_quant_overrides[tensor_name] = [fresh_record]\<close>:
  a new record and a new list are allocated and the table dict is written.
\<close>

definition ensure_entry_store ::
  "store \<Rightarrow> addr \<Rightarrow> string \<Rightarrow> addr override_rec \<Rightarrow> error option \<times> store" where
  "ensure_entry_store s tbl tensor_name fresh_record =
     (case objs s tbl of
        Some (TableObj kvs) \<Rightarrow>
          (case (case map_of kvs tensor_name of
                   None \<Rightarrow> Inr True
                 | Some la \<Rightarrow>
                     (case objs s la of
                        Some (ListObj rs) \<Rightarrow> Inr (rs = [])
                      | _ \<Rightarrow> Inl TypeError)) of
             Inl e \<Rightarrow> (Some e, s)
           | Inr missing \<Rightarrow>
               if missing
               then (case alloc (RecordObj fresh_record) s of
                       (ra, s1) \<Rightarrow>
                         (case alloc (ListObj [ra]) s1 of
                            (la, s2) \<Rightarrow>
                              (None, put tbl (TableObj (AList.update tensor_name la kvs)) s2)))
               else (None, s))
      | _ \<Rightarrow> (Some TypeError, s))"

definition set_weight_type_store ::
  "store \<Rightarrow> addr \<Rightarrow> string \<Rightarrow> QuantType \<Rightarrow> bool \<Rightarrow> error option \<times> store" where
  "set_weight_type_store s tbl tensor_name weight_type weight_symmetric =
     (case ensure_entry_store s tbl tensor_name empty_override of
        (Some e, s1) \<Rightarrow> (Some e, s1)
      | (None, s1) \<Rightarrow>
          (case lookup_list s1 tbl tensor_name of
             Inl e \<Rightarrow> (Some e, s1)
           | Inr rs \<Rightarrow>
               if length rs > 1
               then (Some (ValueError ''Do not yet support per-tensor quantization''), s1)
               else (case rs of
                       [] \<Rightarrow> (Some IndexError, s1)
                     | ra # _ \<Rightarrow>
                         (case objs s1 ra of
                            Some (RecordObj r) \<Rightarrow>
                              if quant_type r = None \<and> symmetric r = None
                              then (None, put ra
                                     (RecordObj (r\<lparr>quant_type := Some weight_type,
                                                   symmetric := Some weight_symmetric\<rparr>)) s1)
                              else (None, s1)
                          | _ \<Rightarrow> (Some TypeError, s1)))))"

definition set_scale_zero_point_store ::
  "store \<Rightarrow> addr \<Rightarrow> string \<Rightarrow> QuantType \<Rightarrow> real \<Rightarrow> int \<Rightarrow> error option \<times> store" where
  "set_scale_zero_point_store s tbl tensor_name qtype scl zp =
     (case ensure_entry_store s tbl tensor_name empty_override of
        (Some e, s1) \<Rightarrow> (Some e, s1)
      | (None, s1) \<Rightarrow>
          (case lookup_list s1 tbl tensor_name of
             Inl e \<Rightarrow> (Some e, s1)
           | Inr rs \<Rightarrow>
               if length rs > 1
               then (Some (ValueError ''Do not yet support per-tensor quantization''), s1)
               else (case rs of
                       [] \<Rightarrow> (Some IndexError, s1)
                     | ra # _ \<Rightarrow>
                         (case objs s1 ra of
                            Some (RecordObj r) \<Rightarrow>
                              let r1 = (if quant_type r = None
                                        then r\<lparr>quant_type := Some qtype\<rparr> else r);
                                  s2 = (if quant_type r = None
                                        then put ra (RecordObj r1) s1 else s1)
                              in if quant_type r1 \<noteq> Some qtype
                                 then (Some (AssertionError
                                         ''Unexpected quant_type when overridding zp/scale''), s2)
                                 else if range_keys_present r1 then (None, s2)
                                 else (None, put ra
                                        (RecordObj (r1\<lparr>zero_point := Some zp,
                                                       scale := Some scl\<rparr>)) s2)
                          | _ \<Rightarrow> (Some TypeError, s1)))))"

text \<open>
  \<^verbatim>\<open>if "convert" not in overrides: overrides["convert"] = {"quant_type": consumer_type}\<close>,
  for the record \<open>r\<close> at address \<open>ra\<close>; the result is the address of
  \<^verbatim>\<open>overrides["convert"]\<close>.
\<close>

definition ensure_convert ::
  "store \<Rightarrow> addr \<Rightarrow> addr override_rec \<Rightarrow> QuantType \<Rightarrow> addr \<times> store" where
  "ensure_convert s ra r consumer_type =
     (case convert r of
        None \<Rightarrow>
          (case alloc (ConvertObj \<lparr>cv_quant_type = Some consumer_type, recv_nodes = None\<rparr>) s of
             (ca, s1) \<Rightarrow> (ca, put ra (RecordObj (r\<lparr>convert := Some ca\<rparr>)) s1))
      | Some ca \<Rightarrow> (ca, s))"

text \<open>
  \<^verbatim>\<open>if "recv_nodes" not in convert_dict: convert_dict["recv_nodes"] = set()\<close>, for the
  \<^verbatim>\<open>convert\<close> dict \<open>c\<close> at address \<open>ca\<close>; the result is the address of the set.
\<close>

definition ensure_recv_nodes :: "store \<Rightarrow> addr \<Rightarrow> addr convert_rec \<Rightarrow> addr \<times> store" where
  "ensure_recv_nodes s ca c =
     (case recv_nodes c of
        None \<Rightarrow>
          (case alloc (SetObj {}) s of
             (sa, s1) \<Rightarrow> (sa, put ca (ConvertObj (c\<lparr>recv_nodes := Some sa\<rparr>)) s1))
      | Some sa \<Rightarrow> (sa, s))"

definition add_to_convert_recv_nodes_store ::
  "store \<Rightarrow> addr \<Rightarrow> string \<Rightarrow> QuantType \<Rightarrow> QuantType \<Rightarrow> string set
     \<Rightarrow> error option \<times> store" where
  "add_to_convert_recv_nodes_store s tbl tensor_name prod_type consumer_type consumer_names =
     (case ensure_entry_store s tbl tensor_name
             (empty_override\<lparr>quant_type := Some prod_type\<rparr>) of
        (Some e, s1) \<Rightarrow> (Some e, s1)
      | (None, s1) \<Rightarrow>
          (case lookup_list s1 tbl tensor_name of
             Inl e \<Rightarrow> (Some e, s1)
           | Inr [] \<Rightarrow> (Some IndexError, s1)
           | Inr (ra # _) \<Rightarrow>
               (case objs s1 ra of
                  Some (RecordObj r) \<Rightarrow>
                    (case ensure_convert s1 ra r consumer_type of
                       (ca, s2) \<Rightarrow>
                         (case objs s2 ca of
                            Some (ConvertObj c) \<Rightarrow>
                              (case cv_quant_type c of
                                 None \<Rightarrow> (Some (KeyError ''quant_type''), s2)
                               | Some ct \<Rightarrow>
                                   if consumer_type \<noteq> ct
                                   then (Some (AssertionError
                                           ''Consumer type doesn't match convert type''), s2)
                                   else
                                     (case ensure_recv_nodes s2 ca c of
                                        (sa, s3) \<Rightarrow>
                                          (case objs s3 sa of
                                             Some (SetObj ns) \<Rightarrow>
                                               (None, put sa
                                                  (SetObj (ns \<union> consumer_names)) s3)
                                           | _ \<Rightarrow> (Some TypeError, s3))))
                          | _ \<Rightarrow> (Some TypeError, s2)))
                | _ \<Rightarrow> (Some TypeError, s1))))"

definition set_convert_default_store ::
  "store \<Rightarrow> addr \<Rightarrow> string \<Rightarrow> QuantType \<Rightarrow> error option \<times> store" where
  "set_convert_default_store s tbl tensor_name activation_type =
     (case lookup_list s tbl tensor_name of
        Inl e \<Rightarrow> (Some e, s)
      | Inr [] \<Rightarrow> (Some IndexError, s)
      | Inr (ra # _) \<Rightarrow>
          (case objs s ra of
             Some (RecordObj r) \<Rightarrow>
               (case alloc (ConvertObj \<lparr>cv_quant_type = Some activation_type,
                                       recv_nodes = None\<rparr>) s of
                  (ca, s1) \<Rightarrow> (None, put ra (RecordObj (r\<lparr>convert := Some ca\<rparr>)) s1))
           | _ \<Rightarrow> (Some TypeError, s)))"

subsection \<open>The resolver and the policy on the store\<close>

text \<open>
  The body of the second loop of the resolver, on the table at address \<open>tbl\<close>. The
  branches are those of \<open>process_request\<close>; what it reads, it reads from the value of
  the table in the store.
\<close>

definition process_request_store ::
  "string \<times> TensorTypeRequest \<Rightarrow> QuantType \<Rightarrow> (string \<rightharpoonup> node list) \<Rightarrow> store \<Rightarrow> addr
     \<Rightarrow> error option \<times> store" where
  "process_request_store item activation_type consumers_of s tbl =
     (case read_table s tbl of
        None \<Rightarrow> (Some TypeError, s)
      | Some tqo \<Rightarrow>
          let tensor_name = fst item; type_req = snd item in
          if producer_type type_req \<noteq> None \<and> consumers type_req = None
          then set_convert_default_store s tbl tensor_name activation_type
          else if producer_type type_req = None
          then (case get_output_activation_qtype tensor_name tqo activation_type of
                  Inl e \<Rightarrow> (Some e, s)
                | Inr prod_type \<Rightarrow>
                    (case consumers type_req of
                       None \<Rightarrow> (Some TypeError, s)
                     | Some (consumer_type, names) \<Rightarrow>
                         if prod_type \<noteq> consumer_type
                         then add_to_convert_recv_nodes_store s tbl tensor_name
                                prod_type consumer_type names
                         else if \<not> check_not_in_convert_recv_nodes tqo tensor_name names
                         then (Some (ValueError
                           ''Tensor override for '{tensor_name}' converts the type for consumers that need the original type.''), s)
                         else (None, s)))
          else (case (producer_type type_req, consumers type_req) of
                  (Some prod_type, Some (consumer_type, names)) \<Rightarrow>
                    if prod_type \<noteq> consumer_type
                    then add_to_convert_recv_nodes_store s tbl tensor_name
                           prod_type consumer_type names
                    else (case consumers_of tensor_name of
                            None \<Rightarrow> (Some (KeyError tensor_name), s)
                          | Some nodes \<Rightarrow>
                              let all_consumers = set (map name nodes);
                                  consumers_for_original_type = all_consumers - names
                              in if consumers_for_original_type = {}
                                 then (case getitem tqo tensor_name of
                                         Inl e \<Rightarrow> (Some e, s)
                                       | Inr [] \<Rightarrow> (Some IndexError, s)
                                       | Inr (ov # _) \<Rightarrow>
                                           if convert ov \<noteq> None
                                           then (Some (AssertionError []), s)
                                           else (None, s))
                                 else add_to_convert_recv_nodes_store s tbl tensor_name
                                        prod_type activation_type consumers_for_original_type)
                | _ \<Rightarrow> (Some TypeError, s)))"

fun process_requests_store ::
  "type_requests \<Rightarrow> QuantType \<Rightarrow> (string \<rightharpoonup> node list) \<Rightarrow> store \<Rightarrow> addr
     \<Rightarrow> error option \<times> store" where
  "process_requests_store [] activation_type consumers_of s tbl = (None, s)"
| "process_requests_store (item # rest) activation_type consumers_of s tbl =
     (case process_request_store item activation_type consumers_of s tbl of
        (Some e, s1) \<Rightarrow> (Some e, s1)
      | (None, s1) \<Rightarrow> process_requests_store rest activation_type consumers_of s1 tbl)"

definition add_qtype_converts_store ::
  "store \<Rightarrow> addr \<Rightarrow> QuantType \<Rightarrow> value_infos \<Rightarrow> initializers \<Rightarrow> (string \<rightharpoonup> node)
     \<Rightarrow> (string \<rightharpoonup> node list) \<Rightarrow> error option \<times> store" where
  "add_qtype_converts_store s tbl activation_type value_infos name_to_initializer
       producers consumers_of =
     (case read_table s tbl of
        None \<Rightarrow> (Some TypeError, s)
      | Some tqo \<Rightarrow>
          (case scan_overrides tqo activation_type value_infos name_to_initializer
                  producers [] of
             Inl e \<Rightarrow> (Some e, s)
           | Inr reqs \<Rightarrow> process_requests_store reqs activation_type consumers_of s tbl))"

definition promote_input_store ::
  "nat \<Rightarrow> node \<Rightarrow> initializers \<Rightarrow> QuantType \<Rightarrow> bool \<Rightarrow> store \<Rightarrow> addr
     \<Rightarrow> error option \<times> store" where
  "promote_input_store i nd name_to_initializer weight_type weight_symmetric s tbl =
     (if i < length (input nd)
      then (let input_name = input nd ! i in
            if name_to_initializer input_name \<noteq> None
            then set_weight_type_store s tbl input_name weight_type weight_symmetric
            else (None, s))
      else (Some IndexError, s))"

definition pin_output_store ::
  "node \<Rightarrow> QuantType \<Rightarrow> real \<times> int \<Rightarrow> real \<times> int \<Rightarrow> store \<Rightarrow> addr
     \<Rightarrow> error option \<times> store" where
  "pin_output_store nd activation_type unsigned16 signed16 s tbl =
     (case read_table s tbl of
        None \<Rightarrow> (Some TypeError, s)
      | Some tqo \<Rightarrow>
          (case output' nd of
             [] \<Rightarrow> (Some IndexError, s)
           | output0 # _ \<Rightarrow>
               (case get_output_activation_qtype output0 tqo activation_type of
                  Inl e \<Rightarrow> (Some e, s)
                | Inr output_type \<Rightarrow>
                    if output_type = QUInt16
                    then set_scale_zero_point_store s tbl output0 output_type
                           (fst unsigned16) (snd unsigned16)
                    else if output_type = QInt16
                    then set_scale_zero_point_store s tbl output0 output_type
                           (fst signed16) (snd signed16)
                    else (None, s))))"

definition policy_node_store ::
  "node \<Rightarrow> QuantType \<Rightarrow> QuantType \<Rightarrow> initializers \<Rightarrow> store \<Rightarrow> addr
     \<Rightarrow> error option \<times> store" where
  "policy_node_store nd activation_type weight_type name_to_initializer s tbl =
     (if op_type nd = ''MatMul'' \<and> weight_type \<in> Q8_TYPES
      then (case read_table s tbl of
              None \<Rightarrow> (Some TypeError, s)
            | Some tqo \<Rightarrow>
                (case matmul_inputs (input nd) tqo (name nd) activation_type
                        name_to_initializer (None, None) of
                   Inl e \<Rightarrow> (Some e, s)
                 | Inr (input_16bit_act, input_wgt) \<Rightarrow>
                     (case input_wgt of
                        Some wgt \<Rightarrow>
                          if truthy input_16bit_act \<and> truthy input_wgt
                          then set_weight_type_store s tbl wgt weight_type (weight_type = QInt8)
                          else (None, s)
                      | None \<Rightarrow> (None, s))))
      else if op_type nd = ''LayerNormalization'' \<and> weight_type \<in> Q8_TYPES
      then (case read_table s tbl of
              None \<Rightarrow> (Some TypeError, s)
            | Some tqo \<Rightarrow>
                (case has_q16_activation (input nd) tqo (name nd) activation_type
                        name_to_initializer of
                   Inl e \<Rightarrow> (Some e, s)
                 | Inr found \<Rightarrow>
                     if found
                     then (case promote_input_store 0 nd name_to_initializer weight_type
                                  (weight_type = QInt8) s tbl of
                             (Some e, s1) \<Rightarrow> (Some e, s1)
                           | (None, s1) \<Rightarrow>
                               promote_input_store 1 nd name_to_initializer weight_type
                                 (weight_type = QInt8) s1 tbl)
                     else (None, s)))
      else if op_type nd = ''Sigmoid''
      then pin_output_store nd activation_type (1 / 65536, 0) (1 / 32768, 0) s tbl
      else if op_type nd = ''Tanh''
      then pin_output_store nd activation_type (1 / 32768, 32768) (1 / 32768, 0) s tbl
      else (None, s))"

fun policy_loop_store ::
  "node list \<Rightarrow> QuantType \<Rightarrow> QuantType \<Rightarrow> initializers \<Rightarrow> store \<Rightarrow> addr
     \<Rightarrow> error option \<times> store" where
  "policy_loop_store [] activation_type weight_type name_to_initializer s tbl = (None, s)"
| "policy_loop_store (nd # rest) activation_type weight_type name_to_initializer s tbl =
     (case policy_node_store nd activation_type weight_type name_to_initializer s tbl of
        (Some e, s1) \<Rightarrow> (Some e, s1)
      | (None, s1) \<Rightarrow>
          policy_loop_store rest activation_type weight_type name_to_initializer s1 tbl)"

text \<open>The truth value of the table dict: it has a key.\<close>

definition table_nonempty :: "store \<Rightarrow> addr \<Rightarrow> bool" where
  "table_nonempty s tbl = (case objs s tbl of Some (TableObj kvs) \<Rightarrow> kvs \<noteq> [] | _ \<Rightarrow> False)"

text \<open>
  \<^verbatim>\<open>tensor_quant_overrides = copy.deepcopy(init_overrides) if init_overrides else {}\<close>,
  where \<open>init\<close> is \<open>None\<close> or the address of the table of the caller. An empty table is
  false in Python, and so is \<^verbatim>\<open>None\<close>: both give a new empty dict. The deep copy starts
  with an empty memo.
\<close>

definition copy_init_overrides :: "store \<Rightarrow> addr option \<Rightarrow> (error + addr) \<times> store" where
  "copy_init_overrides s init =
     (case init of
        None \<Rightarrow> (case alloc (TableObj []) s of (tbl, s1) \<Rightarrow> (Inr tbl, s1))
      | Some a \<Rightarrow>
          (case objs s a of
             Some (TableObj kvs) \<Rightarrow>
               if table_nonempty s a
               then (case deepcopy_table Map.empty s a of (r, m1, s1) \<Rightarrow> (r, s1))
               else (case alloc (TableObj []) s of (tbl, s1) \<Rightarrow> (Inr tbl, s1))
           | _ \<Rightarrow> (Inl TypeError, s)))"

text \<open>
  \<^verbatim>\<open>get_qnn_qdq_config\<close> on the store. The result is the address of the table that the
  returned configuration holds under \<^verbatim>\<open>TensorQuantOverrides\<close>, and the store after the
  call.
\<close>

definition get_qnn_qdq_config_store ::
  "store \<Rightarrow> graph \<Rightarrow> QuantType \<Rightarrow> QuantType \<Rightarrow> addr option \<Rightarrow> bool \<Rightarrow> bool
     \<Rightarrow> (error + addr) \<times> store" where
  "get_qnn_qdq_config_store s model activation_type weight_type init add_converts per_channel =
     (if per_channel
      then (Inl (ValueError ''QNN EP does not yet support per-channel quantization.''), s)
      else
        let name_to_initializer = dict_of (graph_initializer model);
            value_infos = dict_of (graph_value_info model @ graph_output model @ graph_input model)
        in (case index_nodes (graph_node model) ({}, Map.empty, Map.empty) of
              Inl e \<Rightarrow> (Inl e, s)
            | Inr (op_types, consumers_of, producers) \<Rightarrow>
                (case copy_init_overrides s init of
                   (Inl e, s1) \<Rightarrow> (Inl e, s1)
                 | (Inr tbl, s1) \<Rightarrow>
                     (case (if table_nonempty s1 tbl \<and> add_converts
                            then add_qtype_converts_store s1 tbl activation_type value_infos
                                   name_to_initializer producers consumers_of
                            else (None, s1)) of
                        (Some e, s2) \<Rightarrow> (Inl e, s2)
                      | (None, s2) \<Rightarrow>
                          (case policy_loop_store (graph_node model) activation_type weight_type
                                  name_to_initializer s2 tbl of
                             (Some e, s3) \<Rightarrow> (Inl e, s3)
                           | (None, s3) \<Rightarrow> (Inr tbl, s3))))))"

text \<open>
  The part of the store below an address \<open>n\<close> is kept from \<open>s0\<close> to \<open>s\<close>: the objects
  below \<open>n\<close> are the same, the allocator of \<open>s\<close> is at \<open>n\<close> or beyond, and the objects of
  \<open>s\<close> from \<open>n\<close> on refer to addresses from \<open>n\<close> on only.
\<close>

definition kept :: "addr \<Rightarrow> store \<Rightarrow> store \<Rightarrow> bool" where
  "kept n s0 s =
     ((\<forall>a<n. objs s a = objs s0 a) \<and> n \<le> next_addr s
      \<and> (\<forall>a ob. n \<le> a \<longrightarrow> objs s a = Some ob \<longrightarrow> (\<forall>p \<in> ptrs ob. n \<le> p)))"

text \<open>The allocator has handed out every address that is in use.\<close>

definition allocated :: "store \<Rightarrow> bool" where
  "allocated s = (\<forall>a. objs s a \<noteq> None \<longrightarrow> a < next_addr s)"

text \<open>
  The store \<open>s'\<close> has every object of \<open>s\<close>, and its allocator has handed out every
  address in use.
\<close>

definition extends :: "store \<Rightarrow> store \<Rightarrow> bool" where
  "extends s s' = (allocated s' \<and> (\<forall>a ob. objs s a = Some ob \<longrightarrow> objs s' a = Some ob))"

text \<open>
  A store of a caller that holds the table of the example graph and nothing else: the
  record and the list of \<open>X\<close> at the addresses 0 and 1, those of \<open>Y\<close> at 2 and 3, the
  table dict at 4.
\<close>

definition wide_record :: "addr override_rec" where
  "wide_record = empty_override\<lparr>quant_type := Some QInt16\<rparr>"

definition caller_store :: store where
  "caller_store =
     \<lparr>objs = [0 \<mapsto> RecordObj wide_record, 1 \<mapsto> ListObj [0],
              2 \<mapsto> RecordObj wide_record, 3 \<mapsto> ListObj [2],
              4 \<mapsto> TableObj [(''X'', 1), (''Y'', 3)]],
      next_addr = 5\<rparr>"

section \<open>Facts about the setters\<close>

lemma map_of_ensure_entry_other:
  "k \<noteq> t \<Longrightarrow> map_of (ensure_entry tqo t fresh) k = map_of tqo k"
  by (simp add: ensure_entry_def update_conv')

lemma ensure_entry_present:
  "map_of tqo t = Some (ov # rest) \<Longrightarrow> ensure_entry tqo t fresh = tqo"
  by (simp add: ensure_entry_def)

lemma map_of_ensure_entry_absent:
  "map_of tqo t = None \<or> map_of tqo t = Some [] \<Longrightarrow>
     map_of (ensure_entry tqo t fresh) t = Some [fresh]"
  by (auto simp add: ensure_entry_def update_conv')

lemma set_weight_type_noop:
  assumes "map_of tqo t = Some [ov]" and "quant_type ov \<noteq> None \<or> symmetric ov \<noteq> None"
  shows "set_weight_type tqo t wt ws = Inr tqo"
  using assms by (auto simp add: set_weight_type_def ensure_entry_def getitem_def)

lemma set_weight_type_other:
  assumes "set_weight_type tqo t wt ws = Inr tqo'" and "k \<noteq> t"
  shows "map_of tqo' k = map_of tqo k"
  using assms
  by (auto simp add: set_weight_type_def Let_def getitem_def update_conv' map_of_ensure_entry_other
      split: sum.splits if_splits list.splits option.splits)

lemma set_weight_type_keeps:
  assumes "set_weight_type tqo t wt ws = Inr tqo'"
    and "map_of tqo k = Some [ov]" and "quant_type ov \<noteq> None \<or> symmetric ov \<noteq> None"
  shows "map_of tqo' k = Some [ov]"
proof (cases "k = t")
  case True
  with assms show ?thesis by (simp add: set_weight_type_noop)
next
  case False
  with assms show ?thesis by (simp add: set_weight_type_other)
qed

lemma set_scale_zero_point_other:
  assumes "set_scale_zero_point tqo t q s z = Inr tqo'" and "k \<noteq> t"
  shows "map_of tqo' k = map_of tqo k"
  using assms
  by (auto simp add: set_scale_zero_point_def Let_def getitem_def update_conv'
      map_of_ensure_entry_other split: sum.splits if_splits list.splits option.splits)

section \<open>User overrides and the promotion rules\<close>

lemma promote_input_keeps:
  assumes "promote_input i nd n2i wt ws tqo = Inr tqo'"
    and "map_of tqo k = Some [ov]" and "quant_type ov \<noteq> None \<or> symmetric ov \<noteq> None"
  shows "map_of tqo' k = Some [ov]"
  using assms
  by (auto simp add: promote_input_def Let_def split: if_splits dest: set_weight_type_keeps)

lemma pin_output_keeps_narrow:
  assumes "pin_output nd act u s tqo = Inr tqo'"
    and "map_of tqo k = Some [ov]" and "quant_type ov = Some q" and "q \<in> Q8_TYPES"
  shows "map_of tqo' k = Some [ov]"
proof (cases "output' nd")
  case Nil
  with assms show ?thesis by (simp add: pin_output_def)
next
  case (Cons out rest)
  show ?thesis
  proof (cases "out = k")
    case True
    have "get_output_activation_qtype out tqo act = Inr q"
      using assms True by (simp add: get_output_activation_qtype_def)
    moreover have "q \<noteq> QUInt16" "q \<noteq> QInt16"
      using assms(4) by (auto simp add: Q8_TYPES_def)
    ultimately have "tqo' = tqo"
      using assms(1) Cons by (simp add: pin_output_def)
    with assms show ?thesis by simp
  next
    case False
    with assms Cons show ?thesis
      by (auto simp add: pin_output_def split: sum.splits if_splits
          dest: set_scale_zero_point_other)
  qed
qed

lemma promotion_rule_keeps:
  assumes "policy_node nd act wt n2i tqo = Inr tqo'"
    and "op_type nd = ''MatMul'' \<or> op_type nd = ''LayerNormalization''"
    and "map_of tqo k = Some [ov]" and "quant_type ov \<noteq> None \<or> symmetric ov \<noteq> None"
  shows "map_of tqo' k = Some [ov]"
  using assms
  by (auto simp add: policy_node_def Let_def
      split: if_splits sum.splits option.splits prod.splits
      dest: set_weight_type_keeps promote_input_keeps)

lemma policy_node_keeps_narrow:
  assumes "policy_node nd act wt n2i tqo = Inr tqo'"
    and "map_of tqo k = Some [ov]" and "quant_type ov = Some q" and "q \<in> Q8_TYPES"
  shows "map_of tqo' k = Some [ov]"
proof -
  have qs: "quant_type ov \<noteq> None \<or> symmetric ov \<noteq> None" using assms(3) by simp
  consider (mm) "op_type nd = ''MatMul'' \<or> op_type nd = ''LayerNormalization''"
    | (sg) "op_type nd = ''Sigmoid''" | (th) "op_type nd = ''Tanh''"
    | (other) "op_type nd \<noteq> ''MatMul''" "op_type nd \<noteq> ''LayerNormalization''"
         "op_type nd \<noteq> ''Sigmoid''" "op_type nd \<noteq> ''Tanh''"
    by blast
  then show ?thesis
  proof cases
    case mm
    show ?thesis
    proof (cases "wt \<in> Q8_TYPES")
      case True
      then show ?thesis using promotion_rule_keeps[OF assms(1) mm assms(2) qs] by simp
    next
      case False
      then show ?thesis using assms mm
        by (auto simp add: policy_node_def)
    qed
  next
    case sg
    then show ?thesis using assms
      by (auto simp add: policy_node_def dest: pin_output_keeps_narrow)
  next
    case th
    then show ?thesis using assms
      by (auto simp add: policy_node_def dest: pin_output_keeps_narrow)
  next
    case other
    then show ?thesis using assms by (simp add: policy_node_def)
  qed
qed

lemma policy_loop_keeps_narrow:
  assumes "policy_loop nodes act wt n2i tqo = Inr tqo'"
    and "map_of tqo k = Some [ov]" and "quant_type ov = Some q" and "q \<in> Q8_TYPES"
  shows "map_of tqo' k = Some [ov]"
  using assms
proof (induction nodes arbitrary: tqo)
  case Nil
  then show ?case by simp
next
  case (Cons nd rest)
  from Cons.prems(1) obtain tqo1 where
    step: "policy_node nd act wt n2i tqo = Inr tqo1"
    and loop: "policy_loop rest act wt n2i tqo1 = Inr tqo'"
    by (auto split: sum.splits)
  have "map_of tqo1 k = Some [ov]"
    using policy_node_keeps_narrow[OF step Cons.prems(2,3,4)] .
  then show ?case using Cons.IH[OF loop] Cons.prems by simp
qed

text \<open>
  Claim C5. \<^verbatim>\<open>_set_weight_type\<close> returns the table as it is when the single record of
  the tensor already has a \<^verbatim>\<open>quant_type\<close> or a \<^verbatim>\<open>symmetric\<close> key. Consequently a
  \<^verbatim>\<open>MatMul\<close> or \<^verbatim>\<open>LayerNormalization\<close> rule leaves such an entry as it is, and an entry
  whose single record has a narrow (8-bit) \<^verbatim>\<open>quant_type\<close> is the same after the whole
  policy loop.
\<close>

theorem set_weight_type_user_override_wins:
  assumes "map_of tqo t = Some [ov]"
  shows "(quant_type ov \<noteq> None \<or> symmetric ov \<noteq> None \<longrightarrow>
            set_weight_type tqo t wt ws = Inr tqo)
       \<and> ((quant_type ov \<noteq> None \<or> symmetric ov \<noteq> None)
            \<and> (op_type nd = ''MatMul'' \<or> op_type nd = ''LayerNormalization'')
            \<and> policy_node nd act wt n2i tqo = Inr tqo1 \<longrightarrow> map_of tqo1 t = Some [ov])
       \<and> ((\<exists>q \<in> Q8_TYPES. quant_type ov = Some q)
            \<and> policy_loop nodes act wt n2i tqo = Inr tqo2 \<longrightarrow> map_of tqo2 t = Some [ov])"
proof (intro conjI impI)
  assume "quant_type ov \<noteq> None \<or> symmetric ov \<noteq> None"
  then show "set_weight_type tqo t wt ws = Inr tqo"
    using assms by (rule set_weight_type_noop[rotated])
next
  assume "(quant_type ov \<noteq> None \<or> symmetric ov \<noteq> None)
            \<and> (op_type nd = ''MatMul'' \<or> op_type nd = ''LayerNormalization'')
            \<and> policy_node nd act wt n2i tqo = Inr tqo1"
  then show "map_of tqo1 t = Some [ov]"
    using assms promotion_rule_keeps by blast
next
  assume "(\<exists>q \<in> Q8_TYPES. quant_type ov = Some q)
            \<and> policy_loop nodes act wt n2i tqo = Inr tqo2"
  then show "map_of tqo2 t = Some [ov]"
    using assms policy_loop_keeps_narrow by blast
qed

theorem set_weight_type_user_override_wins_witness:
  "map_of user_weight_table ''W'' = Some [user_weight]
   \<and> quant_type user_weight = Some QInt8 \<and> QInt8 \<in> Q8_TYPES
   \<and> set_weight_type user_weight_table ''W'' QUInt8 False = Inr user_weight_table
   \<and> policy_node matmul_node QUInt16 QUInt8 weight_W user_weight_table = Inr user_weight_table
   \<and> policy_loop [matmul_node] QUInt16 QUInt8 weight_W user_weight_table = Inr user_weight_table"
proof -
  have entry: "map_of user_weight_table ''W'' = Some [user_weight]"
    by (simp add: user_weight_table_def)
  have qt: "quant_type user_weight = Some QInt8"
    by (simp add: user_weight_def empty_override_def)
  have q8: "QInt8 \<in> Q8_TYPES" by (simp add: Q8_TYPES_def)
  have inputs: "matmul_inputs (input matmul_node) user_weight_table (name matmul_node) QUInt16
      weight_W (None, None) = Inr (Some ''X'', Some ''W'')"
    by (simp add: matmul_node_def weight_W_def user_weight_table_def
        get_input_activation_qtype_def Q16_TYPES_def)
  have step: "policy_node matmul_node QUInt16 QUInt8 weight_W user_weight_table
      = Inr user_weight_table"
    using inputs set_weight_type_user_override_wins[OF entry, of QUInt8 False] qt
    by (simp add: policy_node_def Q8_TYPES_def truthy_def matmul_node_def)
  have loop: "policy_loop [matmul_node] QUInt16 QUInt8 weight_W user_weight_table
      = Inr user_weight_table"
    using step by simp
  have noop: "set_weight_type user_weight_table ''W'' QUInt8 False = Inr user_weight_table"
    using set_weight_type_user_override_wins[OF entry, of QUInt8 False] qt by simp
  show ?thesis
    using entry qt q8 noop step loop by blast
qed

section \<open>The second loop changes one entry at a time\<close>

lemma add_to_convert_recv_nodes_other:
  assumes "add_to_convert_recv_nodes tqo t p c ns = Inr tqo'" and "k \<noteq> t"
  shows "map_of tqo' k = map_of tqo k"
  using assms
  by (auto simp add: add_to_convert_recv_nodes_def Let_def getitem_def update_conv'
      map_of_ensure_entry_other split: sum.splits if_splits list.splits option.splits)

lemma set_convert_default_other:
  assumes "set_convert_default tqo t act = Inr tqo'" and "k \<noteq> t"
  shows "map_of tqo' k = map_of tqo k"
  using assms
  by (auto simp add: set_convert_default_def getitem_def update_conv'
      split: sum.splits list.splits option.splits)

lemma process_request_other:
  assumes "process_request (t, rq) act cons tqo = Inr tqo'" and "k \<noteq> t"
  shows "map_of tqo' k = map_of tqo k"
  using assms
  by (auto simp add: process_request_def Let_def
      split: sum.splits if_splits list.splits option.splits prod.splits
      dest: add_to_convert_recv_nodes_other set_convert_default_other)

lemma process_requests_other:
  assumes "process_requests reqs act cons tqo = Inr tqo'" and "k \<notin> fst ` set reqs"
  shows "map_of tqo' k = map_of tqo k"
  using assms
proof (induction reqs arbitrary: tqo)
  case Nil
  then show ?case by simp
next
  case (Cons item rest)
  obtain t rq where item: "item = (t, rq)" by (cases item)
  from Cons.prems(1) obtain tqo1 where
    step: "process_request (t, rq) act cons tqo = Inr tqo1"
    and loop: "process_requests rest act cons tqo1 = Inr tqo'"
    by (auto simp add: item split: sum.splits)
  from Cons.prems(2) item have "k \<noteq> t" "k \<notin> fst ` set rest" by auto
  then show ?case
    using Cons.IH[OF loop] process_request_other[OF step] by simp
qed


section \<open>What the scan records\<close>

lemma add_consumer_request_producer:
  assumes "add_consumer_request i q n vi n2i reqs = Inr reqs'"
  shows "producer_request reqs' k = producer_request reqs k"
  using assms
  by (auto simp add: add_consumer_request_def Let_def producer_request_def update_conv'
      split: if_splits option.splits prod.splits)


lemma add_consumer_requests_producer:
  assumes "add_consumer_requests ins q n vi n2i reqs = Inr reqs'"
  shows "producer_request reqs' k = producer_request reqs k"
  using assms
proof (induction ins arbitrary: reqs)
  case Nil
  then show ?case by simp
next
  case (Cons i rest)
  from Cons.prems obtain reqs1 where
    step: "add_consumer_request i q n vi n2i reqs = Inr reqs1"
    and loop: "add_consumer_requests rest q n vi n2i reqs1 = Inr reqs'"
    by (auto split: sum.splits)
  show ?case
    using Cons.IH[OF loop] add_consumer_request_producer[OF step] by simp
qed


lemma add_producer_request_producer:
  assumes "add_producer_request t q reqs = Inr reqs'"
  shows "producer_request reqs' k = (if k = t then Some q else producer_request reqs k)"
  using assms
  by (auto simp add: add_producer_request_def producer_request_def update_conv'
      split: if_splits option.splits)



lemma scan_entry_cases:
  assumes "scan_entry (t, ovs) act vi n2i prods reqs = Inr reqs'"
  shows "reqs' = reqs
       \<or> (\<exists>ov nd reqs1 T. ovs = [ov] \<and> quant_type ov = Some T \<and> T \<noteq> act \<and> convert ov = None
             \<and> prods t = Some nd \<and> n2i t = None \<and> is_tensor_quantizable t vi n2i
             \<and> add_producer_request t T reqs = Inr reqs1
             \<and> add_consumer_requests (input nd) T (name nd) vi n2i reqs1 = Inr reqs')"
proof (cases ovs)
  case Nil
  with assms show ?thesis by (simp add: scan_entry_def split: if_splits)
next
  case (Cons ov rest)
  show ?thesis
  proof (cases rest)
    case Nil
    show ?thesis
    proof (cases "quant_type ov")
      case None
      with assms Cons Nil show ?thesis
        by (auto simp add: scan_entry_def Let_def split: if_splits option.splits)
    next
      case (Some T)
      with assms Cons Nil show ?thesis
        by (auto simp add: scan_entry_def Let_def split: if_splits option.splits sum.splits)
    qed
  next
    case (Cons ov2 rest2)
    with assms \<open>ovs = ov # rest\<close> show ?thesis
      by (simp add: scan_entry_def Let_def split: if_splits)
  qed
qed

lemma scan_entry_producer:
  assumes "scan_entry (t, ovs) act vi n2i prods reqs = Inr reqs'"
    and "producer_request reqs' k = Some T"
  shows "producer_request reqs k = Some T
       \<or> (k = t \<and> T \<noteq> act \<and> (\<exists>ov. ovs = [ov] \<and> quant_type ov = Some T \<and> convert ov = None))"
  using scan_entry_cases[OF assms(1)]
proof
  assume "reqs' = reqs"
  with assms show ?thesis by simp
next
  assume "\<exists>ov nd reqs1 T. ovs = [ov] \<and> quant_type ov = Some T \<and> T \<noteq> act \<and> convert ov = None
             \<and> prods t = Some nd \<and> n2i t = None \<and> is_tensor_quantizable t vi n2i
             \<and> add_producer_request t T reqs = Inr reqs1
             \<and> add_consumer_requests (input nd) T (name nd) vi n2i reqs1 = Inr reqs'"
  then obtain ov nd reqs1 T' where
    ovs: "ovs = [ov]" "quant_type ov = Some T'" "T' \<noteq> act" "convert ov = None" and
    nd: "prods t = Some nd" and
    p: "add_producer_request t T' reqs = Inr reqs1" and
    c: "add_consumer_requests (input nd) T' (name nd) vi n2i reqs1 = Inr reqs'"
    by blast
  have "producer_request reqs' k = (if k = t then Some T' else producer_request reqs k)"
    using add_consumer_requests_producer[OF c] add_producer_request_producer[OF p] by simp
  with assms(2) ovs show ?thesis by (auto split: if_splits)
qed



section \<open>Reconciling the requests of one tensor\<close>





section \<open>The resolver on the example graph\<close>

lemma fork_scan:
  "scan_overrides fork_table QUInt8 fork_value_infos Map.empty fork_producers []
     = Inr fork_requests"
  by (simp add: fork_table_def fork_value_infos_def fork_producers_def fork_requests_def
      scan_entry_def is_tensor_quantizable_def wide_override_def empty_override_def
      add_producer_request_def add_consumer_request_def node_N_def node_P_def node_Q_def)

lemma fork_process:
  "process_requests fork_requests QUInt8 fork_consumers fork_table = Inr fork_resolved"
  by (simp add: fork_table_def fork_consumers_def fork_requests_def fork_resolved_def
      process_request_def set_convert_default_def getitem_def get_output_activation_qtype_def
      add_to_convert_recv_nodes_def ensure_entry_def
      wide_override_def empty_override_def node_N_def node_P_def node_Q_def)

lemma fork_resolver:
  "add_qtype_converts fork_table QUInt8 fork_value_infos Map.empty fork_producers
     fork_consumers = Inr fork_resolved"
  using fork_scan fork_process by (simp add: add_qtype_converts_def)


section \<open>The claims on the reconciliation\<close>





section \<open>The policy rules write the entries of their targets only\<close>

lemma matmul_inputs_wgt:
  assumes "matmul_inputs ins tqo n act n2i st = Inr (a, Some w)"
  shows "snd st = Some w \<or> (w \<in> set ins \<and> n2i w \<noteq> None)"
  using assms
proof (induction ins arbitrary: st)
  case Nil
  then show ?case by simp
next
  case (Cons i rest)
  show ?case
  proof (cases "n2i i = None")
    case True
    with Cons.prems obtain q where
      "matmul_inputs rest tqo n act n2i (if q \<in> Q16_TYPES then (Some i, snd st) else st)
         = Inr (a, Some w)"
      by (auto split: sum.splits)
    from Cons.IH[OF this] show ?thesis by (auto split: if_splits)
  next
    case False
    with Cons.prems have "matmul_inputs rest tqo n act n2i (fst st, Some i) = Inr (a, Some w)"
      by simp
    from Cons.IH[OF this] False show ?thesis by auto
  qed
qed

lemma promote_input_other:
  assumes "promote_input i nd n2i wt ws tqo = Inr tqo'"
    and "k \<notin> {x \<in> set (take 2 (input nd)). n2i x \<noteq> None}" and "i < 2"
  shows "map_of tqo' k = map_of tqo k"
proof (cases "i < length (input nd) \<and> n2i (input nd ! i) \<noteq> None")
  case True
  then have "input nd ! i \<in> set (take 2 (input nd))"
    using assms(3) by (auto simp add: in_set_conv_nth intro!: exI[of _ i])
  with True assms(2) have "k \<noteq> input nd ! i" by auto
  with assms(1) True show ?thesis
    by (auto simp add: promote_input_def Let_def dest: set_weight_type_other)
next
  case False
  with assms(1) show ?thesis
    by (auto simp add: promote_input_def Let_def split: if_splits)
qed

lemma pin_output_other:
  assumes "pin_output nd act u s tqo = Inr tqo'" and "k \<notin> set (take 1 (output' nd))"
  shows "map_of tqo' k = map_of tqo k"
  using assms
  by (cases "output' nd")
     (auto simp add: pin_output_def split: sum.splits if_splits dest: set_scale_zero_point_other)

lemma policy_node_MatMul:
  assumes "op_type nd = ''MatMul''" and "wt \<in> Q8_TYPES"
  shows "policy_node nd act wt n2i tqo =
          (case matmul_inputs (input nd) tqo (name nd) act n2i (None, None) of
             Inl e \<Rightarrow> Inl e
           | Inr (a, wo) \<Rightarrow>
               (case wo of
                  Some wgt \<Rightarrow>
                    if truthy a \<and> truthy wo then set_weight_type tqo wgt wt (wt = QInt8)
                    else Inr tqo
                | None \<Rightarrow> Inr tqo))"
  using assms by (simp add: policy_node_def)

lemma policy_node_LayerNormalization:
  assumes "op_type nd = ''LayerNormalization''" and "wt \<in> Q8_TYPES"
  shows "policy_node nd act wt n2i tqo =
          (case has_q16_activation (input nd) tqo (name nd) act n2i of
             Inl e \<Rightarrow> Inl e
           | Inr found \<Rightarrow>
               if found
               then (case promote_input 0 nd n2i wt (wt = QInt8) tqo of
                       Inl e \<Rightarrow> Inl e
                     | Inr tqo1 \<Rightarrow> promote_input 1 nd n2i wt (wt = QInt8) tqo1)
               else Inr tqo)"
  using assms by (simp add: policy_node_def Let_def)

lemma policy_node_Sigmoid:
  assumes "op_type nd = ''Sigmoid''"
  shows "policy_node nd act wt n2i tqo = pin_output nd act (1 / 65536, 0) (1 / 32768, 0) tqo"
  using assms by (simp add: policy_node_def)

lemma policy_node_Tanh:
  assumes "op_type nd = ''Tanh''"
  shows "policy_node nd act wt n2i tqo = pin_output nd act (1 / 32768, 32768) (1 / 32768, 0) tqo"
  using assms by (simp add: policy_node_def)

lemma policy_node_other:
  assumes "policy_node nd act wt n2i tqo = Inr tqo'" and "k \<notin> policy_targets nd n2i"
  shows "map_of tqo' k = map_of tqo k"
proof -
  consider (mm) "op_type nd = ''MatMul''" | (ln) "op_type nd = ''LayerNormalization''"
    | (sg) "op_type nd = ''Sigmoid'' \<or> op_type nd = ''Tanh''"
    | (other) "op_type nd \<noteq> ''MatMul''" "op_type nd \<noteq> ''LayerNormalization''"
         "op_type nd \<noteq> ''Sigmoid''" "op_type nd \<noteq> ''Tanh''"
    by blast
  then show ?thesis
  proof cases
    case mm
    show ?thesis
    proof (cases "wt \<in> Q8_TYPES")
      case False
      with assms mm show ?thesis by (simp add: policy_node_def)
    next
      case True
      note pn = policy_node_MatMul[OF mm True, of act n2i tqo]
      consider (same) "tqo' = tqo"
        | (set) a w where
            "matmul_inputs (input nd) tqo (name nd) act n2i (None, None) = Inr (a, Some w)"
            "set_weight_type tqo w wt (wt = QInt8) = Inr tqo'"
      proof (cases "matmul_inputs (input nd) tqo (name nd) act n2i (None, None)")
        case (Inl e)
        with assms(1) pn show ?thesis by simp
      next
        case (Inr st)
        obtain a wo where st: "st = (a, wo)" by (cases st)
        show ?thesis
        proof (cases wo)
          case None
          with assms(1) pn Inr st have "tqo' = tqo" by simp
          then show ?thesis by (rule same)
        next
          case (Some w)
          show ?thesis
          proof (cases "truthy a \<and> truthy wo")
            case True
            with assms(1) pn Inr st Some
            have "set_weight_type tqo w wt (wt = QInt8) = Inr tqo'" by simp
            with Inr st Some show ?thesis using set by simp
          next
            case False
            with assms(1) pn Inr st Some have "tqo' = tqo" by auto
            then show ?thesis by (rule same)
          qed
        qed
      qed
      then show ?thesis
      proof cases
        case same
        then show ?thesis by simp
      next
        case set
        from matmul_inputs_wgt[OF set(1)] have "w \<in> set (input nd) \<and> n2i w \<noteq> None" by simp
        with assms(2) mm have "k \<noteq> w" by (auto simp add: policy_targets_def)
        with set(2) show ?thesis by (rule set_weight_type_other)
      qed
    qed
  next
    case ln
    show ?thesis
    proof (cases "wt \<in> Q8_TYPES")
      case False
      with assms ln show ?thesis by (simp add: policy_node_def)
    next
      case True
      from assms(2) ln have k: "k \<notin> {x \<in> set (take 2 (input nd)). n2i x \<noteq> None}"
        by (simp add: policy_targets_def)
      note pn = policy_node_LayerNormalization[OF ln True, of act n2i tqo]
      consider (same) "tqo' = tqo"
        | (set) tqo1 where
            "promote_input 0 nd n2i wt (wt = QInt8) tqo = Inr tqo1"
            "promote_input 1 nd n2i wt (wt = QInt8) tqo1 = Inr tqo'"
      proof (cases "has_q16_activation (input nd) tqo (name nd) act n2i")
        case (Inl e)
        with assms(1) pn show ?thesis by simp
      next
        case (Inr found)
        show ?thesis
        proof (cases found)
          case False
          with assms(1) pn Inr have "tqo' = tqo" by simp
          then show ?thesis by (rule same)
        next
          case True
          with assms(1) pn Inr show ?thesis
            by (cases "promote_input 0 nd n2i wt (wt = QInt8) tqo") (auto intro: set)
        qed
      qed
      then show ?thesis
      proof cases
        case same
        then show ?thesis by simp
      next
        case set
        have "map_of tqo1 k = map_of tqo k"
          using promote_input_other[OF set(1) k] by simp
        moreover have "map_of tqo' k = map_of tqo1 k"
          using promote_input_other[OF set(2) k] by simp
        ultimately show ?thesis by simp
      qed
    qed
  next
    case sg
    with assms have k: "k \<notin> set (take 1 (output' nd))"
      by (auto simp add: policy_targets_def)
    from sg assms(1) obtain u s where "pin_output nd act u s tqo = Inr tqo'"
      by (cases "op_type nd = ''Sigmoid''") (simp_all add: policy_node_def)
    then show ?thesis using k by (rule pin_output_other)
  next
    case other
    with assms show ?thesis by (simp add: policy_node_def)
  qed
qed

lemma policy_loop_other:
  assumes "policy_loop nodes act wt n2i tqo = Inr tqo'"
    and "\<forall>nd \<in> set nodes. k \<notin> policy_targets nd n2i"
  shows "map_of tqo' k = map_of tqo k"
  using assms
proof (induction nodes arbitrary: tqo)
  case Nil
  then show ?case by simp
next
  case (Cons nd rest)
  from Cons.prems(1) obtain tqo1 where
    step: "policy_node nd act wt n2i tqo = Inr tqo1"
    and loop: "policy_loop rest act wt n2i tqo1 = Inr tqo'"
    by (auto split: sum.splits)
  from Cons.prems(2) have "k \<notin> policy_targets nd n2i" "\<forall>nd \<in> set rest. k \<notin> policy_targets nd n2i"
    by auto
  then show ?case
    using Cons.IH[OF loop] policy_node_other[OF step] by simp
qed

section \<open>Entries that the resolver and the policy do not create\<close>

lemma fork_index:
  "index_nodes (graph_node fork_model) ({}, Map.empty, Map.empty) =
     Inr ({''Relu''}, fork_consumers, fork_producers)"
  by (simp add: fork_model_def node_N_def node_P_def node_Q_def fork_consumers_def
      fork_producers_def fun_upd_twist)

lemma fork_vi:
  "dict_of (graph_value_info fork_model @ graph_output fork_model @ graph_input fork_model)
     = fork_value_infos"
  by (auto simp add: dict_of_def fork_model_def fork_value_infos_def fun_eq_iff)

lemma fork_init: "dict_of (graph_initializer fork_model) = Map.empty"
  by (simp add: dict_of_def fork_model_def)

lemma fork_policy:
  "policy_loop (graph_node fork_model) QUInt8 QUInt8 Map.empty fork_resolved = Inr fork_resolved"
  by (simp add: fork_model_def policy_node_def node_N_def node_P_def node_Q_def)

lemma fork_config_eq:
  "get_qnn_qdq_config fork_model QUInt8 QUInt8 (Some fork_table) True False = Inr fork_config"
proof -
  have ne: "fork_table \<noteq> []" by (simp add: fork_table_def)
  show ?thesis
    using ne fork_resolver fork_policy
    by (simp add: get_qnn_qdq_config_def fork_index fork_vi fork_init fork_config_def
        OP_TYPES_TO_EXCLUDE_def Q16_TYPES_def)
qed

text \<open>
  Claim C9, as stated, fails. In the example graph the tensor \<open>I\<close> has no entry in the
  initial table and is the target of no policy rule (every node is a \<^verbatim>\<open>Relu\<close>), but the
  producer \<open>N\<close> of the overridden tensor \<open>X\<close> consumes it: the resolver records a
  consumer-side request for \<open>I\<close> and \<^verbatim>\<open>_add_to_convert_recv_nodes\<close> creates an entry.
\<close>

theorem no_spurious_entry_counterexample:
  "get_qnn_qdq_config fork_model QUInt8 QUInt8 (Some fork_table) True False = Inr fork_config
   \<and> map_of fork_table ''I'' = None
   \<and> ''I'' \<notin> policy_targets node_N Map.empty
   \<and> ''I'' \<notin> policy_targets node_P Map.empty
   \<and> ''I'' \<notin> policy_targets node_Q Map.empty
   \<and> map_of (TensorQuantOverrides fork_config) ''I''
       = Some [empty_override\<lparr>quant_type := Some QUInt8, convert :=
                 Some \<lparr>cv_quant_type = Some QInt16, recv_nodes = Some {''N''}\<rparr>\<rparr>]"
proof -
  have "map_of fork_table ''I'' = None" by (simp add: fork_table_def)
  moreover have "''I'' \<notin> policy_targets node_N Map.empty"
    "''I'' \<notin> policy_targets node_P Map.empty" "''I'' \<notin> policy_targets node_Q Map.empty"
    by (simp_all add: policy_targets_def node_N_def node_P_def node_Q_def)
  moreover have "map_of (TensorQuantOverrides fork_config) ''I''
       = Some [empty_override\<lparr>quant_type := Some QUInt8, convert :=
                 Some \<lparr>cv_quant_type = Some QInt16, recv_nodes = Some {''N''}\<rparr>\<rparr>]"
    by (simp add: fork_config_def fork_resolved_def)
  ultimately show ?thesis using fork_config_eq by blast
qed

text \<open>
  Claim C9, amended. A tensor that has no entry in the initial table, for which the scan
  records no type request, and which is the target of no policy rule has no entry in the
  table the resolver returns, nor in the table after the policy loop.
\<close>

theorem no_spurious_entry:
  assumes "map_of tqo t = None"
    and "scan_overrides tqo act vi n2i prods [] = Inr reqs"
    and "map_of reqs t = None"
    and "add_qtype_converts tqo act vi n2i prods cons = Inr tqo1"
    and "policy_loop nodes act wt n2i tqo1 = Inr tqo2"
    and "\<forall>nd \<in> set nodes. t \<notin> policy_targets nd n2i"
  shows "map_of tqo1 t = None \<and> map_of tqo2 t = None"
proof -
  have loop: "process_requests reqs act cons tqo = Inr tqo1"
    using assms(2,4) by (simp add: add_qtype_converts_def)
  have "t \<notin> fst ` set reqs"
    using assms(3) by (simp add: map_of_eq_None_iff)
  then have one: "map_of tqo1 t = None"
    using process_requests_other[OF loop] assms(1) by simp
  moreover have "map_of tqo2 t = map_of tqo1 t"
    using policy_loop_other[OF assms(5,6)] .
  ultimately show ?thesis by simp
qed

theorem no_spurious_entry_witness:
  "map_of fork_table ''Z'' = None
   \<and> scan_overrides fork_table QUInt8 fork_value_infos Map.empty fork_producers []
       = Inr fork_requests
   \<and> map_of fork_requests ''Z'' = None
   \<and> add_qtype_converts fork_table QUInt8 fork_value_infos Map.empty fork_producers
         fork_consumers = Inr fork_resolved
   \<and> policy_loop (graph_node fork_model) QUInt8 QUInt8 Map.empty fork_resolved
       = Inr fork_resolved
   \<and> ''Z'' \<notin> policy_targets node_N Map.empty
   \<and> ''Z'' \<notin> policy_targets node_P Map.empty
   \<and> ''Z'' \<notin> policy_targets node_Q Map.empty
   \<and> map_of fork_resolved ''Z'' = None"
proof -
  have e: "map_of fork_table ''Z'' = None" by (simp add: fork_table_def)
  have r: "map_of fork_requests ''Z'' = None" by (simp add: fork_requests_def)
  have n: "''Z'' \<notin> policy_targets node_N Map.empty" "''Z'' \<notin> policy_targets node_P Map.empty"
    "''Z'' \<notin> policy_targets node_Q Map.empty"
    by (simp_all add: policy_targets_def node_N_def node_P_def node_Q_def)
  then have t: "\<forall>nd \<in> set (graph_node fork_model). ''Z'' \<notin> policy_targets nd Map.empty"
    by (simp add: fork_model_def)
  from no_spurious_entry[OF e fork_scan r fork_resolver fork_policy t]
  have "map_of fork_resolved ''Z'' = None" by simp
  with e r n fork_scan fork_resolver fork_policy show ?thesis by blast
qed

section \<open>Per-channel entries and the messages of the errors\<close>

lemmas fork_defs = fork_value_infos_def fork_producers_def fork_consumers_def
  node_N_def node_P_def node_Q_def wide_override_def empty_override_def

lemmas resolver_defs = add_qtype_converts_def scan_entry_def is_tensor_quantizable_def
  add_producer_request_def add_consumer_request_def
  process_request_def set_convert_default_def getitem_def get_output_activation_qtype_def
  add_to_convert_recv_nodes_def ensure_entry_def check_not_in_convert_recv_nodes_def







text \<open>
  Claim C8 against the code. The error raised when a consumer-side request contradicts
  an existing restricted \<^verbatim>\<open>convert\<close> (line 210) is built from a plain string, not an
  f-string: its message holds the text \<^verbatim>\<open>{tensor_name}\<close> and not the name of the tensor.
  On the table below the conflicting tensor is \<open>X\<close>, and the letter \<open>X\<close> does not occur
  in the message.
\<close>

theorem contradicting_convert_message:
  "add_qtype_converts contradicting_table QUInt8 fork_value_infos Map.empty
     fork_producers fork_consumers
     = Inl (ValueError
         ''Tensor override for '{tensor_name}' converts the type for consumers that need the original type.'')
   \<and> CHR ''X'' \<notin> set
         ''Tensor override for '{tensor_name}' converts the type for consumers that need the original type.''"
  by (simp add: contradicting_table_def fork_defs resolver_defs)

section \<open>The pinned scale and zero point of Sigmoid and Tanh\<close>

lemma effective_type_cases:
  assumes "get_output_activation_qtype t tqo act = Inr q"
  shows "(map_of tqo t = None \<and> q = act)
       \<or> (\<exists>ov. map_of tqo t = Some [ov]
             \<and> q = (case quant_type ov of None \<Rightarrow> act | Some q' \<Rightarrow> q'))"
proof (cases "map_of tqo t")
  case None
  with assms show ?thesis by (simp add: get_output_activation_qtype_def)
next
  case (Some ovs)
  with assms show ?thesis
    by (cases ovs; cases "tl ovs")
       (auto simp add: get_output_activation_qtype_def split: if_splits)
qed

lemma set_scale_zero_point_effective:
  assumes "get_output_activation_qtype t tqo act = Inr q"
  shows "\<exists>tqo'. set_scale_zero_point tqo t q s z = Inr tqo'
           \<and> map_of tqo' t = Some [if range_keys_present (current_record tqo t)
                then (current_record tqo t)\<lparr>quant_type := Some q\<rparr>
                else (current_record tqo t)\<lparr>quant_type := Some q, zero_point := Some z,
                       scale := Some s\<rparr>]"
  using effective_type_cases[OF assms]
proof
  assume "map_of tqo t = None \<and> q = act"
  then show ?thesis
    by (simp add: set_scale_zero_point_def ensure_entry_def getitem_def update_conv'
        current_record_def range_keys_present_def empty_override_def)
next
  assume "\<exists>ov. map_of tqo t = Some [ov]
             \<and> q = (case quant_type ov of None \<Rightarrow> act | Some q' \<Rightarrow> q')"
  then obtain ov where ov: "map_of tqo t = Some [ov]"
    and q: "q = (case quant_type ov of None \<Rightarrow> act | Some q' \<Rightarrow> q')" by blast
  show ?thesis
  proof (cases "quant_type ov")
    case None
    with ov q show ?thesis
      by (simp add: set_scale_zero_point_def ensure_entry_def getitem_def update_conv'
          current_record_def range_keys_present_def)
  next
    case (Some q')
    with q have "q' = q" by simp
    with Some have same: "ov\<lparr>quant_type := Some q\<rparr> = ov" by simp
    from ov Some \<open>q' = q\<close> show ?thesis
      by (simp add: set_scale_zero_point_def ensure_entry_def getitem_def update_conv'
          current_record_def range_keys_present_def same)
  qed
qed

text \<open>
  Claim C4, as stated, fails. The output \<open>Y\<close> of the \<^verbatim>\<open>Sigmoid\<close> node has the effective
  type \<open>QUInt16\<close>, but its record already holds a scale and a zero point:
  \<^verbatim>\<open>_set_scale_zero_point\<close> prints its warning and leaves the record as it is, with
  scale \<open>1/2\<close> and zero point \<open>3\<close>.
\<close>

theorem sigmoid_pin_counterexample:
  "op_type sigmoid_node = ''Sigmoid''
   \<and> output' sigmoid_node = [''Y'']
   \<and> get_output_activation_qtype ''Y'' [(''Y'', [user_scaled])] QUInt8 = Inr QUInt16
   \<and> policy_node sigmoid_node QUInt8 QUInt8 Map.empty [(''Y'', [user_scaled])]
       = Inr [(''Y'', [user_scaled])]
   \<and> scale user_scaled = Some (1 / 2)
   \<and> zero_point user_scaled = Some 3"
  by (simp add: sigmoid_node_def user_scaled_def empty_override_def policy_node_def
      pin_output_def get_output_activation_qtype_def set_scale_zero_point_def
      ensure_entry_def getitem_def range_keys_present_def)

text \<open>
  Claim C4, amended. Let the first output of a \<^verbatim>\<open>Sigmoid\<close> or \<^verbatim>\<open>Tanh\<close> node have the
  effective type \<open>QUInt16\<close> or \<open>QInt16\<close>. Then the policy rule returns, and the entry of
  that output is one record with that type. If the record had none of the keys
  \<^verbatim>\<open>scale\<close>, \<^verbatim>\<open>zero_point\<close>, \<^verbatim>\<open>symmetric\<close>, \<^verbatim>\<open>reduce_range\<close>, \<^verbatim>\<open>rmin\<close>, \<^verbatim>\<open>rmax\<close>, its
  scale and zero point are pinned to the values of the claim (\<open>pinned_values\<close>);
  otherwise these keys are left as they were.
\<close>

theorem sigmoid_tanh_pin:
  assumes "op_type nd = ''Sigmoid'' \<or> op_type nd = ''Tanh''"
    and "output' nd = out # rest"
    and "get_output_activation_qtype out tqo act = Inr q"
    and "q = QUInt16 \<or> q = QInt16"
  shows "\<exists>tqo'. policy_node nd act wt n2i tqo = Inr tqo'
           \<and> map_of tqo' out = Some [if range_keys_present (current_record tqo out)
                then (current_record tqo out)\<lparr>quant_type := Some q\<rparr>
                else (current_record tqo out)\<lparr>quant_type := Some q,
                       zero_point := Some (snd (pinned_values (op_type nd) q)),
                       scale := Some (fst (pinned_values (op_type nd) q))\<rparr>]"
proof -
  have step: "policy_node nd act wt n2i tqo
      = set_scale_zero_point tqo out q (fst (pinned_values (op_type nd) q))
          (snd (pinned_values (op_type nd) q))"
    using assms(1)
  proof
    assume sg: "op_type nd = ''Sigmoid''"
    show ?thesis
      using assms(2,3,4) unfolding policy_node_Sigmoid[OF sg] sg
      by (auto simp add: pin_output_def pinned_values_def)
  next
    assume th: "op_type nd = ''Tanh''"
    show ?thesis
      using assms(2,3,4) unfolding policy_node_Tanh[OF th] th
      by (auto simp add: pin_output_def pinned_values_def)
  qed
  show ?thesis
    unfolding step by (rule set_scale_zero_point_effective[OF assms(3)])
qed

theorem sigmoid_tanh_pin_witness:
  "op_type sigmoid_node = ''Sigmoid''
   \<and> output' sigmoid_node = [''Y'']
   \<and> get_output_activation_qtype ''Y'' [(''Y'', [unsigned16_override])] QUInt8 = Inr QUInt16
   \<and> policy_node sigmoid_node QUInt8 QUInt8 Map.empty [(''Y'', [unsigned16_override])]
       = Inr [(''Y'', [unsigned16_override\<lparr>zero_point := Some 0, scale := Some (1 / 65536)\<rparr>])]"
proof -
  have o: "op_type sigmoid_node = ''Sigmoid'' \<or> op_type sigmoid_node = ''Tanh''"
    and o': "op_type sigmoid_node = ''Sigmoid''"
    by (simp_all add: sigmoid_node_def)
  have out: "output' sigmoid_node = ''Y'' # []" by (simp add: sigmoid_node_def)
  have q: "get_output_activation_qtype ''Y'' [(''Y'', [unsigned16_override])] QUInt8
             = Inr QUInt16"
    by (simp add: get_output_activation_qtype_def unsigned16_override_def empty_override_def)
  have w: "QUInt16 = QUInt16 \<or> QUInt16 = QInt16" by simp
  from sigmoid_tanh_pin[OF o out q w, of QUInt8 Map.empty] obtain tqo' where
    p: "policy_node sigmoid_node QUInt8 QUInt8 Map.empty [(''Y'', [unsigned16_override])]
          = Inr tqo'" and
    e: "map_of tqo' ''Y''
          = Some [unsigned16_override\<lparr>zero_point := Some 0, scale := Some (1 / 65536)\<rparr>]"
    by (auto simp add: current_record_def range_keys_present_def pinned_values_def
        unsigned16_override_def empty_override_def sigmoid_node_def)
  have "policy_node sigmoid_node QUInt8 QUInt8 Map.empty [(''Y'', [unsigned16_override])]
       = Inr [(''Y'', [unsigned16_override\<lparr>zero_point := Some 0, scale := Some (1 / 65536)\<rparr>])]"
    by (simp add: sigmoid_node_def unsigned16_override_def empty_override_def policy_node_def
        pin_output_def get_output_activation_qtype_def set_scale_zero_point_def
        ensure_entry_def getitem_def range_keys_present_def)
  with o' out q show ?thesis by simp
qed

section \<open>The promotion of the parameters of LayerNormalization\<close>














section \<open>Conflicting consumer-side requests\<close>

lemma add_consumer_request_keeps:
  assumes "add_consumer_request i q n vi n2i reqs = Inr reqs'"
    and "consumer_request reqs x = Some q0"
  shows "consumer_request reqs' x = Some q0"
  using assms
  by (auto simp add: add_consumer_request_def Let_def consumer_request_def update_conv'
      split: if_splits option.splits prod.splits)

lemma add_consumer_request_records:
  assumes "add_consumer_request i q n vi n2i reqs = Inr reqs'"
    and "i \<noteq> []" and "n2i i = None" and "is_tensor_quantizable i vi n2i"
  shows "consumer_request reqs' i = Some q"
  using assms
  by (auto simp add: add_consumer_request_def Let_def consumer_request_def update_conv'
      split: if_splits option.splits prod.splits)

lemma add_consumer_request_error:
  assumes "add_consumer_request i q n vi n2i reqs = Inl e"
  shows "e = ValueError (''Tensor '' @ i @ '' has consumers requesting different types.'')"
  using assms
  by (auto simp add: add_consumer_request_def Let_def update_conv'
      split: if_splits option.splits prod.splits)

lemma add_consumer_requests_keeps:
  assumes "add_consumer_requests ins q n vi n2i reqs = Inr reqs'"
    and "consumer_request reqs x = Some q0"
  shows "consumer_request reqs' x = Some q0"
  using assms
proof (induction ins arbitrary: reqs)
  case Nil
  then show ?case by simp
next
  case (Cons i rest)
  from Cons.prems obtain reqs1 where
    step: "add_consumer_request i q n vi n2i reqs = Inr reqs1"
    and loop: "add_consumer_requests rest q n vi n2i reqs1 = Inr reqs'"
    by (auto split: sum.splits)
  from add_consumer_request_keeps[OF step Cons.prems(2)] Cons.IH[OF loop]
  show ?case by simp
qed

lemma add_consumer_requests_records:
  assumes "add_consumer_requests ins q n vi n2i reqs = Inr reqs'"
    and "x \<in> set ins" and "x \<noteq> []" and "n2i x = None" and "is_tensor_quantizable x vi n2i"
  shows "consumer_request reqs' x = Some q"
  using assms
proof (induction ins arbitrary: reqs)
  case Nil
  then show ?case by simp
next
  case (Cons i rest)
  from Cons.prems obtain reqs1 where
    step: "add_consumer_request i q n vi n2i reqs = Inr reqs1"
    and loop: "add_consumer_requests rest q n vi n2i reqs1 = Inr reqs'"
    by (auto split: sum.splits)
  show ?case
  proof (cases "x = i")
    case True
    with add_consumer_request_records[OF step] Cons.prems
    have "consumer_request reqs1 x = Some q" by simp
    then show ?thesis by (rule add_consumer_requests_keeps[OF loop])
  next
    case False
    with Cons.prems have "x \<in> set rest" by simp
    from Cons.IH[OF loop this Cons.prems(3,4,5)] show ?thesis .
  qed
qed

lemma add_consumer_requests_error:
  assumes "add_consumer_requests ins q n vi n2i reqs = Inl e"
  shows "\<exists>t. e = ValueError (''Tensor '' @ t @ '' has consumers requesting different types.'')"
  using assms
proof (induction ins arbitrary: reqs)
  case Nil
  then show ?case by simp
next
  case (Cons i rest)
  show ?case
  proof (cases "add_consumer_request i q n vi n2i reqs")
    case (Inl e')
    with Cons.prems have "e' = e" by simp
    with add_consumer_request_error[OF Inl] show ?thesis by blast
  next
    case (Inr reqs1)
    with Cons.prems have "add_consumer_requests rest q n vi n2i reqs1 = Inl e" by simp
    then show ?thesis by (rule Cons.IH)
  qed
qed

lemma add_producer_request_consumer:
  assumes "add_producer_request t q reqs = Inr reqs'"
  shows "consumer_request reqs' x = consumer_request reqs x"
  using assms
  by (auto simp add: add_producer_request_def consumer_request_def update_conv'
      split: if_splits option.splits)

lemma add_producer_request_error:
  assumes "add_producer_request t q reqs = Inl e"
  shows "producer_request reqs t \<noteq> None
       \<and> e = ValueError (''Tensor '' @ t @ '' has multiple types.'')"
  using assms
  by (auto simp add: add_producer_request_def producer_request_def
      split: if_splits option.splits)

lemma scan_entry_keeps:
  assumes "scan_entry (t, ovs) act vi n2i prods reqs = Inr reqs'"
    and "consumer_request reqs x = Some q0"
  shows "consumer_request reqs' x = Some q0"
  using scan_entry_cases[OF assms(1)]
proof
  assume "reqs' = reqs"
  with assms(2) show ?thesis by simp
next
  assume "\<exists>ov nd reqs1 T. ovs = [ov] \<and> quant_type ov = Some T \<and> T \<noteq> act \<and> convert ov = None
             \<and> prods t = Some nd \<and> n2i t = None \<and> is_tensor_quantizable t vi n2i
             \<and> add_producer_request t T reqs = Inr reqs1
             \<and> add_consumer_requests (input nd) T (name nd) vi n2i reqs1 = Inr reqs'"
  then obtain nd reqs1 T where
    nd: "prods t = Some nd" and
    p: "add_producer_request t T reqs = Inr reqs1" and
    c: "add_consumer_requests (input nd) T (name nd) vi n2i reqs1 = Inr reqs'"
    by blast
  have "consumer_request reqs1 x = Some q0"
    using add_producer_request_consumer[OF p] assms(2) by simp
  then show ?thesis by (rule add_consumer_requests_keeps[OF c])
qed

lemma requests_forD:
  assumes "requests_for (t, ovs) q x act vi n2i prods"
  obtains ov nd where "ovs = [ov]" "quant_type ov = Some q" "q \<noteq> act" "convert ov = None"
    "prods t = Some nd" "x \<in> set (input nd)" "x \<noteq> []" "n2i x = None"
    "is_tensor_quantizable x vi n2i" "is_tensor_quantizable t vi n2i" "n2i t = None"
proof -
  from assms obtain ov where "ovs = [ov]"
    by (cases ovs; cases "tl ovs") (auto simp add: requests_for_def)
  moreover from assms obtain nd where "prods t = Some nd"
    by (cases "prods t") (auto simp add: requests_for_def)
  ultimately show ?thesis using assms that by (auto simp add: requests_for_def)
qed

lemma scan_entry_records:
  assumes "scan_entry (t, ovs) act vi n2i prods reqs = Inr reqs'"
    and "requests_for (t, ovs) q x act vi n2i prods"
  shows "consumer_request reqs' x = Some q"
proof -
  from assms(2) obtain ov nd where
    e: "ovs = [ov]" "quant_type ov = Some q" "q \<noteq> act" "convert ov = None"
    "prods t = Some nd" "is_tensor_quantizable t vi n2i" "n2i t = None" and
    x: "x \<in> set (input nd)" "x \<noteq> []" "n2i x = None" "is_tensor_quantizable x vi n2i"
    by (rule requests_forD)
  from assms(1) e obtain reqs1 where
    c: "add_consumer_requests (input nd) q (name nd) vi n2i reqs1 = Inr reqs'"
    by (auto simp add: scan_entry_def split: sum.splits)
  from add_consumer_requests_records[OF c x] show ?thesis .
qed

lemma scan_entry_error:
  assumes "scan_entry (t, ovs) act vi n2i prods reqs = Inl e"
  shows "(prods t = None \<and> e = KeyError t)
       \<or> (producer_request reqs t \<noteq> None
            \<and> e = ValueError (''Tensor '' @ t @ '' has multiple types.''))
       \<or> (\<exists>x. e = ValueError (''Tensor '' @ x @ '' has consumers requesting different types.''))"
proof (cases "prods t")
  case None
  with assms show ?thesis
    by (auto simp add: scan_entry_def Let_def split: if_splits)
next
  case (Some nd)
  let ?q = "case quant_type (hd ovs) of None \<Rightarrow> act | Some q \<Rightarrow> q"
  show ?thesis
  proof (cases "add_producer_request t ?q reqs")
    case (Inl e')
    with assms Some have "e' = e"
      by (auto simp add: scan_entry_def Let_def split: if_splits)
    with add_producer_request_error[OF Inl] show ?thesis by simp
  next
    case (Inr reqs1)
    with assms Some have "add_consumer_requests (input nd) ?q (name nd) vi n2i reqs1 = Inl e"
      by (auto simp add: scan_entry_def Let_def split: if_splits)
    from add_consumer_requests_error[OF this] show ?thesis by blast
  qed
qed

lemma scan_overrides_keeps:
  assumes "scan_overrides es act vi n2i prods reqs = Inr reqs'"
    and "consumer_request reqs x = Some q0"
  shows "consumer_request reqs' x = Some q0"
  using assms
proof (induction es arbitrary: reqs)
  case Nil
  then show ?case by simp
next
  case (Cons e rest)
  obtain t ovs where e: "e = (t, ovs)" by (cases e)
  from Cons.prems obtain reqs1 where
    step: "scan_entry (t, ovs) act vi n2i prods reqs = Inr reqs1"
    and loop: "scan_overrides rest act vi n2i prods reqs1 = Inr reqs'"
    by (auto simp add: e split: sum.splits)
  from scan_entry_keeps[OF step Cons.prems(2)] Cons.IH[OF loop] show ?case by simp
qed

lemma scan_overrides_records:
  assumes "scan_overrides es act vi n2i prods reqs = Inr reqs'"
    and "(t, ovs) \<in> set es" and "requests_for (t, ovs) q x act vi n2i prods"
  shows "consumer_request reqs' x = Some q"
  using assms
proof (induction es arbitrary: reqs)
  case Nil
  then show ?case by simp
next
  case (Cons e rest)
  obtain t0 ovs0 where e: "e = (t0, ovs0)" by (cases e)
  from Cons.prems obtain reqs1 where
    step: "scan_entry (t0, ovs0) act vi n2i prods reqs = Inr reqs1"
    and loop: "scan_overrides rest act vi n2i prods reqs1 = Inr reqs'"
    by (auto simp add: e split: sum.splits)
  show ?case
  proof (cases "(t, ovs) = e")
    case True
    with e step Cons.prems(3) have "consumer_request reqs1 x = Some q"
      using scan_entry_records by blast
    then show ?thesis by (rule scan_overrides_keeps[OF loop])
  next
    case False
    with Cons.prems(2) have "(t, ovs) \<in> set rest" by simp
    from Cons.IH[OF loop this Cons.prems(3)] show ?thesis .
  qed
qed

lemma scan_conflict_fails:
  assumes "(t1, ovs1) \<in> set es" and "requests_for (t1, ovs1) q1 x act vi n2i prods"
    and "(t2, ovs2) \<in> set es" and "requests_for (t2, ovs2) q2 x act vi n2i prods"
    and "q1 \<noteq> q2"
  shows "\<exists>e. scan_overrides es act vi n2i prods reqs = Inl e"
proof (cases "scan_overrides es act vi n2i prods reqs")
  case (Inl e)
  then show ?thesis by blast
next
  case (Inr reqs')
  from scan_overrides_records[OF Inr assms(1,2)] scan_overrides_records[OF Inr assms(3,4)]
    assms(5)
  show ?thesis by simp
qed

lemma scan_overrides_error:
  assumes "scan_overrides es act vi n2i prods reqs = Inl e"
    and "distinct (map fst es)"
    and "\<forall>k. producer_request reqs k \<noteq> None \<longrightarrow> k \<notin> fst ` set es"
  shows "(\<exists>k \<in> fst ` set es. prods k = None \<and> e = KeyError k)
       \<or> (\<exists>x. e = ValueError (''Tensor '' @ x @ '' has consumers requesting different types.''))"
  using assms
proof (induction es arbitrary: reqs)
  case Nil
  then show ?case by simp
next
  case (Cons en rest)
  obtain t ovs where en: "en = (t, ovs)" by (cases en)
  show ?case
  proof (cases "scan_entry (t, ovs) act vi n2i prods reqs")
    case (Inl e')
    with Cons.prems(1) en have "e' = e" by simp
    moreover from Cons.prems(3) en have "producer_request reqs t = None" by auto
    ultimately show ?thesis using scan_entry_error[OF Inl] en by auto
  next
    case (Inr reqs1)
    with Cons.prems(1) en have loop: "scan_overrides rest act vi n2i prods reqs1 = Inl e"
      by simp
    from Cons.prems(2) en have d: "distinct (map fst rest)" and t: "t \<notin> fst ` set rest"
      by auto
    have inv: "\<forall>k. producer_request reqs1 k \<noteq> None \<longrightarrow> k \<notin> fst ` set rest"
    proof (intro allI impI)
      fix k
      assume "producer_request reqs1 k \<noteq> None"
      then obtain T where "producer_request reqs1 k = Some T" by auto
      from scan_entry_producer[OF Inr this]
      show "k \<notin> fst ` set rest"
        using Cons.prems(3) t en by auto
    qed
    from Cons.IH[OF loop d inv] show ?thesis by auto
  qed
qed

lemma consumer_conflict_raised:
  assumes "distinct (map fst tqo)"
    and "(t1, ovs1) \<in> set tqo" and "requests_for (t1, ovs1) q1 x act vi n2i prods"
    and "(t2, ovs2) \<in> set tqo" and "requests_for (t2, ovs2) q2 x act vi n2i prods"
    and "q1 \<noteq> q2"
  shows "(\<exists>k \<in> fst ` set tqo. prods k = None
            \<and> add_qtype_converts tqo act vi n2i prods cons = Inl (KeyError k))
       \<or> (\<exists>y. add_qtype_converts tqo act vi n2i prods cons
            = Inl (ValueError (''Tensor '' @ y @ '' has consumers requesting different types.'')))"
proof -
  from scan_conflict_fails[OF assms(2-6)] obtain e where
    e: "scan_overrides tqo act vi n2i prods [] = Inl e" by blast
  have "\<forall>k. producer_request [] k \<noteq> None \<longrightarrow> k \<notin> fst ` set tqo"
    by (simp add: producer_request_def)
  from scan_overrides_error[OF e assms(1) this] e show ?thesis
    by (auto simp add: add_qtype_converts_def)
qed

text \<open>
  Claim C2 against the code. On both tables the operations \<open>P\<close> and \<open>Q\<close> request different
  types for \<open>X\<close>. When the entry of the graph input \<open>I\<close> is scanned after the two
  conflicting entries, the resolver raises the conflict error for \<open>X\<close>. When it is scanned
  first, \<^verbatim>\<open>producers[tensor_name]\<close> (line 164) raises \<^verbatim>\<open>KeyError\<close> and no conflict is
  reported: the error depends on the scan order. By \<open>consumer_conflict_raised\<close> these are
  the only two outcomes, and the conflict error is raised in every order when every
  tensor of the table has a producer.
\<close>

theorem conflict_preempted_by_missing_producer:
  "requests_for (''Y'', [wide_override]) QInt16 ''X'' QUInt8 fork_value_infos Map.empty
     fork_producers
   \<and> requests_for (''Z'', [unsigned16_override]) QUInt16 ''X'' QUInt8 fork_value_infos Map.empty
     fork_producers
   \<and> add_qtype_converts conflict_input_last QUInt8 fork_value_infos Map.empty
        fork_producers fork_consumers
       = Inl (ValueError ''Tensor X has consumers requesting different types.'')
   \<and> add_qtype_converts conflict_input_first QUInt8 fork_value_infos Map.empty
        fork_producers fork_consumers
       = Inl (KeyError ''I'')
   \<and> get_qnn_qdq_config fork_model QUInt8 QUInt8 (Some conflict_input_first) True False
       = Inl (KeyError ''I'')"
proof -
  have r: "requests_for (''Y'', [wide_override]) QInt16 ''X'' QUInt8 fork_value_infos Map.empty
             fork_producers"
    "requests_for (''Z'', [unsigned16_override]) QUInt16 ''X'' QUInt8 fork_value_infos Map.empty
             fork_producers"
    by (simp_all add: requests_for_def unsigned16_override_def fork_defs
        is_tensor_quantizable_def)
  have l: "add_qtype_converts conflict_input_last QUInt8 fork_value_infos Map.empty
        fork_producers fork_consumers
       = Inl (ValueError ''Tensor X has consumers requesting different types.'')"
    by (simp add: conflict_input_last_def unsigned16_override_def fork_defs resolver_defs)
  have f: "add_qtype_converts conflict_input_first QUInt8 fork_value_infos Map.empty
        fork_producers fork_consumers
       = Inl (KeyError ''I'')"
    by (simp add: conflict_input_first_def unsigned16_override_def fork_defs resolver_defs)
  have ne: "conflict_input_first \<noteq> []" by (simp add: conflict_input_first_def)
  have g: "get_qnn_qdq_config fork_model QUInt8 QUInt8 (Some conflict_input_first) True False
       = Inl (KeyError ''I'')"
    using ne f by (simp add: get_qnn_qdq_config_def fork_index fork_vi fork_init)
  from r l f g show ?thesis by blast
qed

section \<open>The table of the caller\<close>

subsection \<open>Every write goes to the copy\<close>

lemma kept_start:
  assumes "\<forall>a. objs s0 a \<noteq> None \<longrightarrow> a < next_addr s0"
  shows "kept (next_addr s0) s0 s0"
  using assms by (auto simp add: kept_def)

lemma kept_alloc:
  assumes "kept n s0 s" and "\<forall>p \<in> ptrs ob. n \<le> p" and "alloc ob s = (a, s')"
  shows "kept n s0 s' \<and> n \<le> a"
  using assms by (auto simp add: kept_def alloc_def split: if_splits)

lemma kept_put:
  assumes "kept n s0 s" and "n \<le> a" and "\<forall>p \<in> ptrs ob. n \<le> p"
  shows "kept n s0 (put a ob s)"
  using assms by (auto simp add: kept_def put_def split: if_splits)

lemma kept_ptr:
  assumes "kept n s0 s" and "n \<le> a" and "objs s a = Some ob" and "p \<in> ptrs ob"
  shows "n \<le> p"
  using assms by (auto simp add: kept_def)

lemma table_ptr:
  assumes "kept n s0 s" and "n \<le> tbl" and "objs s tbl = Some (TableObj kvs)"
    and "map_of kvs t = Some la"
  shows "n \<le> la"
proof -
  from assms(4) have "(t, la) \<in> set kvs" by (rule map_of_SomeD)
  then have "la \<in> ptrs (TableObj kvs)" by (force simp add: ptrs_def)
  with assms(1,2,3) show ?thesis by (rule kept_ptr)
qed

lemma lookup_list_ptr:
  assumes "kept n s0 s" and "n \<le> tbl" and "lookup_list s tbl t = Inr rs" and "ra \<in> set rs"
  shows "n \<le> ra"
proof -
  from assms(3) obtain kvs la where
    t: "objs s tbl = Some (TableObj kvs)" and m: "map_of kvs t = Some la"
    and l: "objs s la = Some (ListObj rs)"
    by (auto simp add: lookup_list_def split: option.splits obj.splits)
  from table_ptr[OF assms(1,2) t m] have "n \<le> la" .
  moreover from assms(4) have "ra \<in> ptrs (ListObj rs)" by (simp add: ptrs_def)
  ultimately show ?thesis using assms(1) l kept_ptr by blast
qed

lemma ptrs_update:
  assumes "\<forall>p \<in> ptrs (TableObj kvs). n \<le> p" and "n \<le> la"
  shows "\<forall>p \<in> ptrs (TableObj (AList.update t la kvs)). n \<le> p"
proof
  fix p
  assume "p \<in> ptrs (TableObj (AList.update t la kvs))"
  then obtain k where "(k, p) \<in> set (AList.update t la kvs)"
    by (auto simp add: ptrs_def)
  then have "p = la \<or> (k, p) \<in> set kvs"
    by (induction kvs) (auto split: if_splits)
  with assms show "n \<le> p" by (force simp add: ptrs_def)
qed

lemma kept_ensure_entry:
  assumes "kept n s0 s" and "n \<le> tbl" and "convert r = None"
  shows "kept n s0 (snd (ensure_entry_store s tbl t r))"
proof (cases "objs s tbl")
  case None
  with assms show ?thesis by (simp add: ensure_entry_store_def)
next
  case (Some ob)
  show ?thesis
  proof (cases ob)
    case (TableObj kvs)
    have tp: "\<forall>p \<in> ptrs (TableObj kvs). n \<le> p"
      using assms Some TableObj kept_ptr by blast
    have rp: "\<forall>p \<in> ptrs (RecordObj r). n \<le> p" if "convert r = None"
      using that by (simp add: ptrs_def)
    obtain ra s1 where a1: "alloc (RecordObj r) s = (ra, s1)" by (cases "alloc (RecordObj r) s")
    obtain la s2 where a2: "alloc (ListObj [ra]) s1 = (la, s2)" by (cases "alloc (ListObj [ra]) s1")
    have create: "kept n s0 (put tbl (TableObj (AList.update t la kvs)) s2)"
      if c: "convert r = None"
    proof -
      from kept_alloc[OF assms(1) rp[OF c] a1] have k1: "kept n s0 s1" and ra: "n \<le> ra" by auto
      from ra have "\<forall>p \<in> ptrs (ListObj [ra]). n \<le> p" by (simp add: ptrs_def)
      from kept_alloc[OF k1 this a2] have k2: "kept n s0 s2" and la: "n \<le> la" by auto
      from kept_put[OF k2 assms(2) ptrs_update[OF tp la]] show ?thesis .
    qed
    have "snd (ensure_entry_store s tbl t r) = s
        \<or> snd (ensure_entry_store s tbl t r) = put tbl (TableObj (AList.update t la kvs)) s2"
      using Some TableObj a1 a2
      by (auto simp add: ensure_entry_store_def split: option.splits obj.splits)
    then show ?thesis using assms(1) create assms(3) by auto
  qed (use assms Some in \<open>simp_all add: ensure_entry_store_def\<close>)
qed


lemma kept_put_record:
  assumes "kept n s0 s" and "n \<le> ra" and "objs s ra = Some (RecordObj r)"
    and "convert r' = convert r"
  shows "kept n s0 (put ra (RecordObj r') s)"
proof -
  have "\<forall>p \<in> ptrs (RecordObj r'). n \<le> p"
    using kept_ptr[OF assms(1,2,3)] assms(4) by (simp add: ptrs_def)
  with assms(1,2) show ?thesis by (rule kept_put)
qed

lemma empty_override_convert: "convert empty_override = None"
  by (simp add: empty_override_def)

lemma kept_set_weight_type:
  assumes "kept n s0 s" and "n \<le> tbl"
  shows "kept n s0 (snd (set_weight_type_store s tbl t wt ws))"
proof -
  obtain e1 s1 where en: "ensure_entry_store s tbl t empty_override = (e1, s1)"
    by (cases "ensure_entry_store s tbl t (empty_override :: addr override_rec)")
  have k1: "kept n s0 s1"
    using kept_ensure_entry[OF assms empty_override_convert, of t] en by simp
  show ?thesis
  proof (cases "lookup_list s1 tbl t")
    case (Inl e)
    with en k1 show ?thesis
      by (auto simp add: set_weight_type_store_def split: option.splits)
  next
    case (Inr rs)
    show ?thesis
    proof (cases rs)
      case Nil
      with en k1 Inr show ?thesis
        by (auto simp add: set_weight_type_store_def split: option.splits)
    next
      case (Cons ra rest)
      with Inr have ra: "n \<le> ra" using lookup_list_ptr[OF k1 assms(2)] by simp
      show ?thesis
      proof (cases "objs s1 ra")
        case None
        with en k1 Inr Cons show ?thesis
          by (auto simp add: set_weight_type_store_def split: option.splits)
      next
        case (Some ob)
        show ?thesis
        proof (cases ob)
          case (RecordObj r)
          have "kept n s0 (put ra (RecordObj (r\<lparr>quant_type := Some wt, symmetric := Some ws\<rparr>)) s1)"
            using kept_put_record[OF k1 ra] Some RecordObj by simp
          with en k1 Inr Cons Some RecordObj show ?thesis
            by (auto simp add: set_weight_type_store_def split: option.splits)
        qed (use en k1 Inr Cons Some in
              \<open>auto simp add: set_weight_type_store_def split: option.splits\<close>)
      qed
    qed
  qed
qed

lemma kept_set_scale_zero_point:
  assumes "kept n s0 s" and "n \<le> tbl"
  shows "kept n s0 (snd (set_scale_zero_point_store s tbl t q sc zp))"
proof -
  obtain e1 s1 where en: "ensure_entry_store s tbl t empty_override = (e1, s1)"
    by (cases "ensure_entry_store s tbl t (empty_override :: addr override_rec)")
  have k1: "kept n s0 s1"
    using kept_ensure_entry[OF assms empty_override_convert, of t] en by simp
  show ?thesis
  proof (cases "lookup_list s1 tbl t")
    case (Inl e)
    with en k1 show ?thesis
      by (auto simp add: set_scale_zero_point_store_def split: option.splits)
  next
    case (Inr rs)
    show ?thesis
    proof (cases rs)
      case Nil
      with en k1 Inr show ?thesis
        by (auto simp add: set_scale_zero_point_store_def split: option.splits)
    next
      case (Cons ra rest)
      with Inr have ra: "n \<le> ra" using lookup_list_ptr[OF k1 assms(2)] by simp
      show ?thesis
      proof (cases "objs s1 ra")
        case None
        with en k1 Inr Cons show ?thesis
          by (auto simp add: set_scale_zero_point_store_def split: option.splits)
      next
        case (Some ob)
        show ?thesis
        proof (cases ob)
          case (RecordObj r)
          define r1 where "r1 = (if quant_type r = None then r\<lparr>quant_type := Some q\<rparr> else r)"
          define s2 where "s2 = (if quant_type r = None then put ra (RecordObj r1) s1 else s1)"
          have c1: "convert r1 = convert r" by (simp add: r1_def)
          have k2: "kept n s0 s2"
            using kept_put_record[OF k1 ra, of r r1] Some RecordObj c1 k1
            by (simp add: s2_def)
          have o2: "objs s2 ra = Some (RecordObj r1)"
            using Some RecordObj by (simp add: s2_def r1_def put_def)
          have k3: "kept n s0 (put ra (RecordObj (r1\<lparr>zero_point := Some zp, scale := Some sc\<rparr>)) s2)"
            using kept_put_record[OF k2 ra o2] by simp
          have "snd (set_scale_zero_point_store s tbl t q sc zp) = s1
              \<or> snd (set_scale_zero_point_store s tbl t q sc zp) = s2
              \<or> snd (set_scale_zero_point_store s tbl t q sc zp)
                  = put ra (RecordObj (r1\<lparr>zero_point := Some zp, scale := Some sc\<rparr>)) s2"
            using en Inr Cons Some RecordObj
            by (auto simp add: set_scale_zero_point_store_def Let_def r1_def s2_def
                split: option.splits)
          with k1 k2 k3 show ?thesis by auto
        qed (use en k1 Inr Cons Some in
              \<open>auto simp add: set_scale_zero_point_store_def split: option.splits\<close>)
      qed
    qed
  qed
qed

lemma kept_set_convert_default:
  assumes "kept n s0 s" and "n \<le> tbl"
  shows "kept n s0 (snd (set_convert_default_store s tbl t act))"
proof (cases "lookup_list s tbl t")
  case (Inl e)
  with assms show ?thesis by (simp add: set_convert_default_store_def)
next
  case (Inr rs)
  show ?thesis
  proof (cases rs)
    case Nil
    with assms Inr show ?thesis by (simp add: set_convert_default_store_def)
  next
    case (Cons ra rest)
    with Inr have ra: "n \<le> ra" using lookup_list_ptr[OF assms] by simp
    show ?thesis
    proof (cases "objs s ra")
      case None
      with assms Inr Cons show ?thesis by (simp add: set_convert_default_store_def)
    next
      case (Some ob)
      show ?thesis
      proof (cases ob)
        case (RecordObj r)
        obtain ca s1 where a: "alloc (ConvertObj \<lparr>cv_quant_type = Some act, recv_nodes = None\<rparr>) s
            = (ca, s1)"
          by (cases "alloc (ConvertObj \<lparr>cv_quant_type = Some act, recv_nodes = None\<rparr>) s")
        have "\<forall>p \<in> ptrs (ConvertObj \<lparr>cv_quant_type = Some act, recv_nodes = None\<rparr>). n \<le> p"
          by (simp add: ptrs_def)
        from kept_alloc[OF assms(1) this a] have k1: "kept n s0 s1" and ca: "n \<le> ca" by auto
        from ca have "\<forall>p \<in> ptrs (RecordObj (r\<lparr>convert := Some ca\<rparr>)). n \<le> p"
          by (simp add: ptrs_def)
        from kept_put[OF k1 ra this] a Inr Cons Some RecordObj show ?thesis
          by (simp add: set_convert_default_store_def)
      qed (use assms Inr Cons Some in \<open>simp_all add: set_convert_default_store_def\<close>)
    qed
  qed
qed

lemma kept_ensure_convert:
  assumes "kept n s0 s" and "n \<le> ra" and "objs s ra = Some (RecordObj r)"
    and "ensure_convert s ra r ct = (ca, s2)"
  shows "kept n s0 s2 \<and> n \<le> ca"
proof (cases "convert r")
  case None
  obtain ca' s1 where a: "alloc (ConvertObj \<lparr>cv_quant_type = Some ct, recv_nodes = None\<rparr>) s
      = (ca', s1)"
    by (cases "alloc (ConvertObj \<lparr>cv_quant_type = Some ct, recv_nodes = None\<rparr>) s")
  have "\<forall>p \<in> ptrs (ConvertObj \<lparr>cv_quant_type = Some ct, recv_nodes = None\<rparr>). n \<le> p"
    by (simp add: ptrs_def)
  from kept_alloc[OF assms(1) this a] have k1: "kept n s0 s1" and ca: "n \<le> ca'" by auto
  from ca have "\<forall>p \<in> ptrs (RecordObj (r\<lparr>convert := Some ca'\<rparr>)). n \<le> p"
    by (simp add: ptrs_def)
  from kept_put[OF k1 assms(2) this] a None assms(4) ca show ?thesis
    by (auto simp add: ensure_convert_def)
next
  case (Some ca')
  then have "ca' \<in> ptrs (RecordObj r)" by (simp add: ptrs_def)
  from kept_ptr[OF assms(1,2,3) this] Some assms(1,4) show ?thesis
    by (auto simp add: ensure_convert_def)
qed

lemma kept_ensure_recv_nodes:
  assumes "kept n s0 s" and "n \<le> ca" and "objs s ca = Some (ConvertObj c)"
    and "ensure_recv_nodes s ca c = (sa, s3)"
  shows "kept n s0 s3 \<and> n \<le> sa"
proof (cases "recv_nodes c")
  case None
  obtain sa' s1 where a: "alloc (SetObj {}) s = (sa', s1)" by (cases "alloc (SetObj {}) s")
  have "\<forall>p \<in> ptrs (SetObj {}). n \<le> p" by (simp add: ptrs_def)
  from kept_alloc[OF assms(1) this a] have k1: "kept n s0 s1" and sa: "n \<le> sa'" by auto
  from sa have "\<forall>p \<in> ptrs (ConvertObj (c\<lparr>recv_nodes := Some sa'\<rparr>)). n \<le> p"
    by (simp add: ptrs_def)
  from kept_put[OF k1 assms(2) this] a None assms(4) sa show ?thesis
    by (auto simp add: ensure_recv_nodes_def)
next
  case (Some sa')
  then have "sa' \<in> ptrs (ConvertObj c)" by (simp add: ptrs_def)
  from kept_ptr[OF assms(1,2,3) this] Some assms(1,4) show ?thesis
    by (auto simp add: ensure_recv_nodes_def)
qed

lemma kept_add_to_convert_recv_nodes:
  assumes "kept n s0 s" and "n \<le> tbl"
  shows "kept n s0 (snd (add_to_convert_recv_nodes_store s tbl t pt ct names))"
proof -
  let ?fr = "empty_override\<lparr>quant_type := Some pt\<rparr> :: addr override_rec"
  obtain e1 s1 where en: "ensure_entry_store s tbl t ?fr = (e1, s1)"
    by (cases "ensure_entry_store s tbl t ?fr")
  have "convert ?fr = None" by (simp add: empty_override_def)
  from kept_ensure_entry[OF assms this, of t] en have k1: "kept n s0 s1" by simp
  show ?thesis
  proof (cases "lookup_list s1 tbl t")
    case (Inl e)
    with en k1 show ?thesis
      by (auto simp add: add_to_convert_recv_nodes_store_def split: option.splits)
  next
    case (Inr rs)
    show ?thesis
    proof (cases rs)
      case Nil
      with en k1 Inr show ?thesis
        by (auto simp add: add_to_convert_recv_nodes_store_def split: option.splits)
    next
      case (Cons ra rest)
      with Inr have ra: "n \<le> ra" using lookup_list_ptr[OF k1 assms(2)] by simp
      show ?thesis
      proof (cases "objs s1 ra")
        case None
        with en k1 Inr Cons show ?thesis
          by (auto simp add: add_to_convert_recv_nodes_store_def split: option.splits)
      next
        case (Some ob)
        show ?thesis
        proof (cases ob)
          case (RecordObj r)
          obtain ca s2 where ec: "ensure_convert s1 ra r ct = (ca, s2)"
            by (cases "ensure_convert s1 ra r ct")
          from kept_ensure_convert[OF k1 ra _ ec] Some RecordObj
          have k2: "kept n s0 s2" and ca: "n \<le> ca" by auto
          show ?thesis
          proof (cases "objs s2 ca")
            case None
            with en k1 k2 Inr Cons Some RecordObj ec show ?thesis
              by (auto simp add: add_to_convert_recv_nodes_store_def split: option.splits)
          next
            case (Some ob2)
            note o2 = this
            show ?thesis
            proof (cases ob2)
              case (ConvertObj c)
              obtain sa s3 where er: "ensure_recv_nodes s2 ca c = (sa, s3)"
                by (cases "ensure_recv_nodes s2 ca c")
              from kept_ensure_recv_nodes[OF k2 ca _ er] o2 ConvertObj
              have k3: "kept n s0 s3" and sa: "n \<le> sa" by auto
              have k4: "kept n s0 (put sa (SetObj ns) s3)" for ns
                using kept_put[OF k3 sa] by (simp add: ptrs_def)
              have "snd (add_to_convert_recv_nodes_store s tbl t pt ct names) = s1
                  \<or> snd (add_to_convert_recv_nodes_store s tbl t pt ct names) = s2
                  \<or> snd (add_to_convert_recv_nodes_store s tbl t pt ct names) = s3
                  \<or> (\<exists>ns. snd (add_to_convert_recv_nodes_store s tbl t pt ct names)
                        = put sa (SetObj ns) s3)"
                using en Inr Cons \<open>objs s1 ra = Some ob\<close> RecordObj ec o2 ConvertObj er
                by (auto simp add: add_to_convert_recv_nodes_store_def
                    split: option.splits obj.splits)
              with k1 k2 k3 k4 show ?thesis by auto
            qed (use en k1 k2 Inr Cons \<open>objs s1 ra = Some ob\<close> RecordObj ec o2 in
                  \<open>auto simp add: add_to_convert_recv_nodes_store_def split: option.splits\<close>)
          qed
        qed (use en k1 Inr Cons Some in
              \<open>auto simp add: add_to_convert_recv_nodes_store_def split: option.splits\<close>)
      qed
    qed
  qed
qed

lemma kept_process_request:
  assumes "kept n s0 s" and "n \<le> tbl"
  shows "kept n s0 (snd (process_request_store item act cons s tbl))"
proof (cases "read_table s tbl")
  case None
  with assms show ?thesis by (simp add: process_request_store_def)
next
  case (Some tqo)
  then show ?thesis
    using assms
    by (auto simp add: process_request_store_def Let_def kept_set_convert_default
        kept_add_to_convert_recv_nodes
        split: sum.splits option.splits prod.splits list.splits)
qed

lemma kept_process_requests:
  assumes "kept n s0 s" and "n \<le> tbl"
  shows "kept n s0 (snd (process_requests_store reqs act cons s tbl))"
  using assms
proof (induction reqs arbitrary: s)
  case Nil
  then show ?case by simp
next
  case (Cons item rest)
  obtain e s1 where st: "process_request_store item act cons s tbl = (e, s1)"
    by (cases "process_request_store item act cons s tbl")
  from kept_process_request[OF Cons.prems, of item act cons] st have k1: "kept n s0 s1" by simp
  show ?case
  proof (cases e)
    case None
    with st Cons.IH[OF k1 Cons.prems(2)] show ?thesis by simp
  next
    case (Some err)
    with st k1 show ?thesis by simp
  qed
qed

lemma kept_add_qtype_converts:
  assumes "kept n s0 s" and "n \<le> tbl"
  shows "kept n s0 (snd (add_qtype_converts_store s tbl act vi n2i prods cons))"
  using assms kept_process_requests[OF assms]
  by (auto simp add: add_qtype_converts_store_def split: option.splits sum.splits)

lemma kept_promote_input:
  assumes "kept n s0 s" and "n \<le> tbl"
  shows "kept n s0 (snd (promote_input_store i nd n2i wt ws s tbl))"
  using assms kept_set_weight_type[OF assms]
  by (auto simp add: promote_input_store_def Let_def)

lemma kept_pin_output:
  assumes "kept n s0 s" and "n \<le> tbl"
  shows "kept n s0 (snd (pin_output_store nd act u g s tbl))"
  using assms kept_set_scale_zero_point[OF assms]
  by (auto simp add: pin_output_store_def split: option.splits list.splits sum.splits)

lemma kept_policy_node:
  assumes "kept n s0 s" and "n \<le> tbl"
  shows "kept n s0 (snd (policy_node_store nd act wt n2i s tbl))"
proof (cases "op_type nd = ''MatMul'' \<and> wt \<in> Q8_TYPES")
  case True
  then have "snd (policy_node_store nd act wt n2i s tbl) = s
      \<or> (\<exists>w. snd (policy_node_store nd act wt n2i s tbl)
            = snd (set_weight_type_store s tbl w wt (wt = QInt8)))"
    by (auto simp add: policy_node_store_def split: option.splits sum.splits prod.splits)
  with assms kept_set_weight_type[OF assms] show ?thesis by auto
next
  case mm: False
  show ?thesis
  proof (cases "op_type nd = ''LayerNormalization'' \<and> wt \<in> Q8_TYPES")
    case True
    obtain e s1 where p0: "promote_input_store 0 nd n2i wt (wt = QInt8) s tbl = (e, s1)"
      by (cases "promote_input_store 0 nd n2i wt (wt = QInt8) s tbl")
    from kept_promote_input[OF assms, of 0 nd n2i wt "wt = QInt8"] p0
    have k1: "kept n s0 s1" by simp
    from kept_promote_input[OF k1 assms(2)]
    have k2: "kept n s0 (snd (promote_input_store 1 nd n2i wt (wt = QInt8) s1 tbl))" .
    from mm True p0 have "snd (policy_node_store nd act wt n2i s tbl) = s
        \<or> snd (policy_node_store nd act wt n2i s tbl) = s1
        \<or> snd (policy_node_store nd act wt n2i s tbl)
            = snd (promote_input_store 1 nd n2i wt (wt = QInt8) s1 tbl)"
      by (auto simp add: policy_node_store_def split: option.splits sum.splits)
    with assms k1 k2 show ?thesis by auto
  next
    case ln: False
    show ?thesis
    proof (cases "op_type nd = ''Sigmoid''")
      case True
      with mm ln have "policy_node_store nd act wt n2i s tbl
          = pin_output_store nd act (1 / 65536, 0) (1 / 32768, 0) s tbl"
        by (auto simp add: policy_node_store_def)
      with kept_pin_output[OF assms] show ?thesis by simp
    next
      case sg: False
      show ?thesis
      proof (cases "op_type nd = ''Tanh''")
        case True
        with mm ln sg have "policy_node_store nd act wt n2i s tbl
            = pin_output_store nd act (1 / 32768, 32768) (1 / 32768, 0) s tbl"
          by (auto simp add: policy_node_store_def)
        with kept_pin_output[OF assms] show ?thesis by simp
      next
        case False
        with mm ln sg have "policy_node_store nd act wt n2i s tbl = (None, s)"
          by (auto simp add: policy_node_store_def)
        with assms show ?thesis by simp
      qed
    qed
  qed
qed

lemma kept_policy_loop:
  assumes "kept n s0 s" and "n \<le> tbl"
  shows "kept n s0 (snd (policy_loop_store nodes act wt n2i s tbl))"
  using assms
proof (induction nodes arbitrary: s)
  case Nil
  then show ?case by simp
next
  case (Cons nd rest)
  obtain e s1 where st: "policy_node_store nd act wt n2i s tbl = (e, s1)"
    by (cases "policy_node_store nd act wt n2i s tbl")
  from kept_policy_node[OF Cons.prems, of nd act wt n2i] st have k1: "kept n s0 s1" by simp
  show ?case
  proof (cases e)
    case None
    with st Cons.IH[OF k1 Cons.prems(2)] show ?thesis by simp
  next
    case (Some err)
    with st k1 show ?thesis by simp
  qed
qed

lemma kept_deepcopy_set:
  assumes "kept n s0 s" and "\<forall>b \<in> ran m. n \<le> b" and "deepcopy_set m s a = (r, m', s')"
  shows "kept n s0 s' \<and> (\<forall>b \<in> ran m'. n \<le> b) \<and> (\<forall>b. r = Inr b \<longrightarrow> n \<le> b)"
proof (cases "m a")
  case (Some b)
  then have "b \<in> ran m" by (auto simp add: ran_def)
  with assms Some show ?thesis by (auto simp add: deepcopy_set_def)
next
  case None
  show ?thesis
  proof (cases "\<exists>ns. objs s a = Some (SetObj ns)")
    case True
    then obtain ns where o: "objs s a = Some (SetObj ns)" by blast
    obtain b s1 where a1: "alloc (SetObj ns) s = (b, s1)" by (cases "alloc (SetObj ns) s")
    have "\<forall>p \<in> ptrs (SetObj ns). n \<le> p" by (simp add: ptrs_def)
    from kept_alloc[OF assms(1) this a1] have k1: "kept n s0 s1" and b: "n \<le> b" by auto
    from assms(3) None o a1 have "r = Inr b" "m' = m(a \<mapsto> b)" "s' = s1"
      by (simp_all add: deepcopy_set_def)
    with k1 b assms(2) None show ?thesis by (auto simp add: ran_map_upd)
  next
    case False
    with assms None show ?thesis
      by (auto simp add: deepcopy_set_def split: option.splits obj.splits)
  qed
qed

lemma kept_deepcopy_convert:
  assumes "kept n s0 s" and "\<forall>b \<in> ran m. n \<le> b" and "deepcopy_convert m s a = (r, m', s')"
  shows "kept n s0 s' \<and> (\<forall>b \<in> ran m'. n \<le> b) \<and> (\<forall>b. r = Inr b \<longrightarrow> n \<le> b)"
proof (cases "m a")
  case (Some b)
  then have "b \<in> ran m" by (auto simp add: ran_def)
  with assms Some show ?thesis by (auto simp add: deepcopy_convert_def)
next
  case None
  show ?thesis
  proof (cases "\<exists>c. objs s a = Some (ConvertObj c)")
    case True
    then obtain c where o: "objs s a = Some (ConvertObj c)" by blast
    show ?thesis
    proof (cases "recv_nodes c")
      case rn: None
      obtain b s1 where a1: "alloc (ConvertObj c) s = (b, s1)" by (cases "alloc (ConvertObj c) s")
      from rn have "\<forall>p \<in> ptrs (ConvertObj c). n \<le> p" by (simp add: ptrs_def)
      from kept_alloc[OF assms(1) this a1] have k1: "kept n s0 s1" and b: "n \<le> b" by auto
      from assms(3) None o rn a1 have "r = Inr b" "m' = m(a \<mapsto> b)" "s' = s1"
        by (simp_all add: deepcopy_convert_def)
      with k1 b assms(2) None show ?thesis by (auto simp add: ran_map_upd)
    next
      case (Some sa)
      obtain r1 m1 s1 where d: "deepcopy_set m s sa = (r1, m1, s1)"
        by (cases "deepcopy_set m s sa")
      note k1 = kept_deepcopy_set[OF assms(1,2) d]
      show ?thesis
      proof (cases r1)
        case (Inl e)
        from assms(3) None o Some d Inl have "r = Inl e" "m' = m1" "s' = s1"
          by (simp_all add: deepcopy_convert_def)
        with k1 show ?thesis by simp
      next
        case (Inr sb)
        with k1 have sb: "n \<le> sb" by simp
        obtain b s2 where a2: "alloc (ConvertObj (c\<lparr>recv_nodes := Some sb\<rparr>)) s1 = (b, s2)"
          by (cases "alloc (ConvertObj (c\<lparr>recv_nodes := Some sb\<rparr>)) s1")
        from sb have "\<forall>p \<in> ptrs (ConvertObj (c\<lparr>recv_nodes := Some sb\<rparr>)). n \<le> p"
          by (simp add: ptrs_def)
        from kept_alloc[OF _ this a2] k1 have k2: "kept n s0 s2" and b: "n \<le> b" by auto
        from assms(3) None o Some d Inr a2 have "r = Inr b" "m' = m1(a \<mapsto> b)" "s' = s2"
          by (simp_all add: deepcopy_convert_def)
        with k1 k2 b show ?thesis by (auto simp add: ran_def split: if_splits)
      qed
    qed
  next
    case False
    with assms None show ?thesis
      by (auto simp add: deepcopy_convert_def split: option.splits obj.splits)
  qed
qed

lemma kept_deepcopy_record:
  assumes "kept n s0 s" and "\<forall>b \<in> ran m. n \<le> b" and "deepcopy_record m s a = (r, m', s')"
  shows "kept n s0 s' \<and> (\<forall>b \<in> ran m'. n \<le> b) \<and> (\<forall>b. r = Inr b \<longrightarrow> n \<le> b)"
proof (cases "m a")
  case (Some b)
  then have "b \<in> ran m" by (auto simp add: ran_def)
  with assms Some show ?thesis by (auto simp add: deepcopy_record_def)
next
  case None
  show ?thesis
  proof (cases "\<exists>rc. objs s a = Some (RecordObj rc)")
    case True
    then obtain rc where o: "objs s a = Some (RecordObj rc)" by blast
    show ?thesis
    proof (cases "convert rc")
      case cv: None
      obtain b s1 where a1: "alloc (RecordObj rc) s = (b, s1)" by (cases "alloc (RecordObj rc) s")
      from cv have "\<forall>p \<in> ptrs (RecordObj rc). n \<le> p" by (simp add: ptrs_def)
      from kept_alloc[OF assms(1) this a1] have k1: "kept n s0 s1" and b: "n \<le> b" by auto
      from assms(3) None o cv a1 have "r = Inr b" "m' = m(a \<mapsto> b)" "s' = s1"
        by (simp_all add: deepcopy_record_def)
      with k1 b assms(2) None show ?thesis by (auto simp add: ran_map_upd)
    next
      case (Some ca)
      obtain r1 m1 s1 where d: "deepcopy_convert m s ca = (r1, m1, s1)"
        by (cases "deepcopy_convert m s ca")
      note k1 = kept_deepcopy_convert[OF assms(1,2) d]
      show ?thesis
      proof (cases r1)
        case (Inl e)
        from assms(3) None o Some d Inl have "r = Inl e" "m' = m1" "s' = s1"
          by (simp_all add: deepcopy_record_def)
        with k1 show ?thesis by simp
      next
        case (Inr cb)
        with k1 have cb: "n \<le> cb" by simp
        obtain b s2 where a2: "alloc (RecordObj (rc\<lparr>convert := Some cb\<rparr>)) s1 = (b, s2)"
          by (cases "alloc (RecordObj (rc\<lparr>convert := Some cb\<rparr>)) s1")
        from cb have "\<forall>p \<in> ptrs (RecordObj (rc\<lparr>convert := Some cb\<rparr>)). n \<le> p"
          by (simp add: ptrs_def)
        from kept_alloc[OF _ this a2] k1 have k2: "kept n s0 s2" and b: "n \<le> b" by auto
        from assms(3) None o Some d Inr a2 have "r = Inr b" "m' = m1(a \<mapsto> b)" "s' = s2"
          by (simp_all add: deepcopy_record_def)
        with k1 k2 b show ?thesis by (auto simp add: ran_def split: if_splits)
      qed
    qed
  next
    case False
    with assms None show ?thesis
      by (auto simp add: deepcopy_record_def split: option.splits obj.splits)
  qed
qed

lemma kept_deepcopy_records:
  assumes "kept n s0 s" and "\<forall>b \<in> ran m. n \<le> b" and "deepcopy_records m s as = (r, m', s')"
  shows "kept n s0 s' \<and> (\<forall>b \<in> ran m'. n \<le> b) \<and> (\<forall>bs. r = Inr bs \<longrightarrow> (\<forall>b \<in> set bs. n \<le> b))"
  using assms
proof (induction as arbitrary: m s r m' s')
  case Nil
  then show ?case by auto
next
  case (Cons a rest)
  obtain r1 m1 s1 where d: "deepcopy_record m s a = (r1, m1, s1)"
    by (cases "deepcopy_record m s a")
  note k1 = kept_deepcopy_record[OF Cons.prems(1,2) d]
  show ?case
  proof (cases r1)
    case (Inl e)
    from Cons.prems(3) d Inl have "r = Inl e" "m' = m1" "s' = s1" by simp_all
    with k1 show ?thesis by simp
  next
    case (Inr b)
    obtain r2 m2 s2 where d2: "deepcopy_records m1 s1 rest = (r2, m2, s2)"
      by (cases "deepcopy_records m1 s1 rest")
    from k1 have "kept n s0 s1" "\<forall>b \<in> ran m1. n \<le> b" by simp_all
    note k2 = Cons.IH[OF this d2]
    from Cons.prems(3) d Inr d2 k1 k2 show ?thesis by (cases r2) auto
  qed
qed

lemma kept_deepcopy_list:
  assumes "kept n s0 s" and "\<forall>b \<in> ran m. n \<le> b" and "deepcopy_list m s a = (r, m', s')"
  shows "kept n s0 s' \<and> (\<forall>b \<in> ran m'. n \<le> b) \<and> (\<forall>b. r = Inr b \<longrightarrow> n \<le> b)"
proof (cases "m a")
  case (Some b)
  then have "b \<in> ran m" by (auto simp add: ran_def)
  with assms Some show ?thesis by (auto simp add: deepcopy_list_def)
next
  case None
  show ?thesis
  proof (cases "\<exists>rs. objs s a = Some (ListObj rs)")
    case True
    then obtain rs where o: "objs s a = Some (ListObj rs)" by blast
    obtain r1 m1 s1 where d: "deepcopy_records m s rs = (r1, m1, s1)"
      by (cases "deepcopy_records m s rs")
    note k1 = kept_deepcopy_records[OF assms(1,2) d]
    show ?thesis
    proof (cases r1)
      case (Inl e)
      from assms(3) None o d Inl have "r = Inl e" "m' = m1" "s' = s1"
        by (simp_all add: deepcopy_list_def)
      with k1 show ?thesis by simp
    next
      case (Inr bs)
      with k1 have "\<forall>p \<in> ptrs (ListObj bs). n \<le> p" by (simp add: ptrs_def)
      moreover obtain b s2 where a2: "alloc (ListObj bs) s1 = (b, s2)"
        by (cases "alloc (ListObj bs) s1")
      ultimately have k2: "kept n s0 s2" and b: "n \<le> b" using kept_alloc k1 by blast+
      from assms(3) None o d Inr a2 have "r = Inr b" "m' = m1(a \<mapsto> b)" "s' = s2"
        by (simp_all add: deepcopy_list_def)
      with k1 k2 b show ?thesis by (auto simp add: ran_def split: if_splits)
    qed
  next
    case False
    with assms None show ?thesis
      by (auto simp add: deepcopy_list_def split: option.splits obj.splits)
  qed
qed

lemma kept_deepcopy_entries:
  assumes "kept n s0 s" and "\<forall>b \<in> ran m. n \<le> b" and "deepcopy_entries m s kvs = (r, m', s')"
  shows "kept n s0 s' \<and> (\<forall>b \<in> ran m'. n \<le> b)
       \<and> (\<forall>kvs'. r = Inr kvs' \<longrightarrow> (\<forall>b \<in> snd ` set kvs'. n \<le> b))"
  using assms
proof (induction kvs arbitrary: m s r m' s')
  case Nil
  then show ?case by auto
next
  case (Cons kv rest)
  obtain r1 m1 s1 where d: "deepcopy_list m s (snd kv) = (r1, m1, s1)"
    by (cases "deepcopy_list m s (snd kv)")
  note k1 = kept_deepcopy_list[OF Cons.prems(1,2) d]
  show ?case
  proof (cases r1)
    case (Inl e)
    from Cons.prems(3) d Inl have "r = Inl e" "m' = m1" "s' = s1" by simp_all
    with k1 show ?thesis by simp
  next
    case (Inr b)
    obtain r2 m2 s2 where d2: "deepcopy_entries m1 s1 rest = (r2, m2, s2)"
      by (cases "deepcopy_entries m1 s1 rest")
    from k1 have "kept n s0 s1" "\<forall>b \<in> ran m1. n \<le> b" by simp_all
    note k2 = Cons.IH[OF this d2]
    from Cons.prems(3) d Inr d2 k1 k2 show ?thesis by (cases r2) auto
  qed
qed

lemma kept_deepcopy_table:
  assumes "kept n s0 s" and "\<forall>b \<in> ran m. n \<le> b" and "deepcopy_table m s a = (r, m', s')"
  shows "kept n s0 s' \<and> (\<forall>b \<in> ran m'. n \<le> b) \<and> (\<forall>b. r = Inr b \<longrightarrow> n \<le> b)"
proof (cases "m a")
  case (Some b)
  then have "b \<in> ran m" by (auto simp add: ran_def)
  with assms Some show ?thesis by (auto simp add: deepcopy_table_def)
next
  case None
  show ?thesis
  proof (cases "\<exists>kvs. objs s a = Some (TableObj kvs)")
    case True
    then obtain kvs where o: "objs s a = Some (TableObj kvs)" by blast
    obtain r1 m1 s1 where d: "deepcopy_entries m s kvs = (r1, m1, s1)"
      by (cases "deepcopy_entries m s kvs")
    from kept_deepcopy_entries[OF assms(1,2) d]
    have k1: "kept n s0 s1" and rm1: "\<forall>b \<in> ran m1. n \<le> b"
      and tp: "\<forall>kvs'. r1 = Inr kvs' \<longrightarrow> (\<forall>b \<in> snd ` set kvs'. n \<le> b)"
      by blast+
    show ?thesis
    proof (cases r1)
      case (Inl e)
      from assms(3) None o d Inl have "r = Inl e" "m' = m1" "s' = s1"
        by (simp_all add: deepcopy_table_def)
      with k1 rm1 show ?thesis by simp
    next
      case (Inr kvs')
      with tp have "\<forall>b \<in> snd ` set kvs'. n \<le> b" by blast
      then have pt: "\<forall>p \<in> ptrs (TableObj kvs'). n \<le> p" unfolding ptrs_def by simp
      obtain b s2 where a2: "alloc (TableObj kvs') s1 = (b, s2)"
        by (cases "alloc (TableObj kvs') s1")
      from kept_alloc[OF k1 pt a2] have k2: "kept n s0 s2" and b: "n \<le> b" by blast+
      from assms(3) None o d Inr a2 have "r = Inr b" "m' = m1(a \<mapsto> b)" "s' = s2"
        by (simp_all add: deepcopy_table_def)
      moreover have "\<forall>c \<in> ran (m1(a \<mapsto> b)). n \<le> c"
        using rm1 b by (auto simp add: ran_def split: if_splits)
      ultimately show ?thesis using k2 b by simp
    qed
  next
    case False
    with assms None show ?thesis
      by (auto simp add: deepcopy_table_def split: option.splits obj.splits)
  qed
qed

lemma kept_copy_init_overrides:
  assumes "kept n s0 s" and "copy_init_overrides s init = (r, s')"
  shows "kept n s0 s' \<and> (\<forall>tbl. r = Inr tbl \<longrightarrow> n \<le> tbl)"
proof -
  have e: "\<forall>p \<in> ptrs (TableObj []). n \<le> p" by (simp add: ptrs_def)
  obtain a1 s1 where a1: "alloc (TableObj []) s = (a1, s1)" by (cases "alloc (TableObj []) s")
  note k1 = kept_alloc[OF assms(1) e a1]
  show ?thesis
  proof (cases init)
    case None
    with assms(2) a1 k1 show ?thesis by (auto simp add: copy_init_overrides_def)
  next
    case (Some a)
    obtain r2 m2 s2 where d: "deepcopy_table Map.empty s a = (r2, m2, s2)"
      by (cases "deepcopy_table Map.empty s a")
    have "\<forall>b \<in> ran (Map.empty :: memo). n \<le> b" by simp
    note k2 = kept_deepcopy_table[OF assms(1) this d]
    from assms Some a1 k1 d k2 show ?thesis
      by (auto simp add: copy_init_overrides_def split: option.splits obj.splits if_splits)
  qed
qed

lemma kept_get_qnn_qdq_config:
  assumes "kept n s0 s"
  shows "kept n s0 (snd (get_qnn_qdq_config_store s model act wt init flag pc))"
proof (cases pc)
  case True
  with assms show ?thesis by (simp add: get_qnn_qdq_config_store_def)
next
  case False
  show ?thesis
  proof (cases "index_nodes (graph_node model) ({}, Map.empty, Map.empty)")
    case (Inl e)
    with assms False show ?thesis by (simp add: get_qnn_qdq_config_store_def)
  next
    case (Inr st)
    obtain op_types cons prods where st: "st = (op_types, cons, prods)" by (cases st)
    obtain r s1 where c: "copy_init_overrides s init = (r, s1)"
      by (cases "copy_init_overrides s init")
    from kept_copy_init_overrides[OF assms c] have k1: "kept n s0 s1"
      and t: "\<forall>tbl. r = Inr tbl \<longrightarrow> n \<le> tbl" by auto
    show ?thesis
    proof (cases r)
      case (Inl e)
      with False Inr st c k1 show ?thesis by (simp add: get_qnn_qdq_config_store_def)
    next
      case r: (Inr tbl)
      with t have tbl: "n \<le> tbl" by simp
      let ?vi = "dict_of (graph_value_info model @ graph_output model @ graph_input model)"
      let ?n2i = "dict_of (graph_initializer model)"
      define res where "res = (if table_nonempty s1 tbl \<and> flag
          then add_qtype_converts_store s1 tbl act ?vi ?n2i prods cons else (None, s1))"
      obtain e2 s2 where r2: "res = (e2, s2)" by (cases res)
      have k2: "kept n s0 s2"
        using kept_add_qtype_converts[OF k1 tbl, of act ?vi ?n2i prods cons] k1 r2
        by (auto simp add: res_def split: if_splits)
      obtain e3 s3 where r3: "policy_loop_store (graph_node model) act wt ?n2i s2 tbl = (e3, s3)"
        by (cases "policy_loop_store (graph_node model) act wt ?n2i s2 tbl")
      from kept_policy_loop[OF k2 tbl, of "graph_node model" act wt ?n2i] r3
      have k3: "kept n s0 s3" by simp
      have "snd (get_qnn_qdq_config_store s model act wt init flag pc) = s2
          \<or> snd (get_qnn_qdq_config_store s model act wt init flag pc) = s3"
        using False Inr st c r r2 r3
        by (auto simp add: get_qnn_qdq_config_store_def Let_def res_def split: option.splits)
      with k2 k3 show ?thesis by auto
    qed
  qed
qed

subsection \<open>Reading a table from a store that has kept its objects\<close>

lemma read_set_same:
  assumes "\<forall>a ob. objs s0 a = Some ob \<longrightarrow> objs s a = Some ob"
    and "read_set s0 a = Some v"
  shows "read_set s a = Some v"
  using assms by (auto simp add: read_set_def split: option.splits obj.splits)

lemma read_convert_same:
  assumes "\<forall>a ob. objs s0 a = Some ob \<longrightarrow> objs s a = Some ob"
    and "read_convert s0 a = Some v"
  shows "read_convert s a = Some v"
proof -
  from assms(2) obtain c where c: "objs s0 a = Some (ConvertObj c)"
    by (auto simp add: read_convert_def split: option.splits obj.splits)
  with assms(1) have c': "objs s a = Some (ConvertObj c)" by simp
  show ?thesis
  proof (cases "recv_nodes c")
    case None
    with assms(2) c c' show ?thesis by (simp add: read_convert_def)
  next
    case (Some sa)
    with assms(2) c obtain ns where ns: "read_set s0 sa = Some ns"
      by (auto simp add: read_convert_def split: option.splits)
    from read_set_same[OF assms(1) ns] assms(2) c c' Some ns show ?thesis
      by (simp add: read_convert_def)
  qed
qed

lemma read_record_same:
  assumes "\<forall>a ob. objs s0 a = Some ob \<longrightarrow> objs s a = Some ob"
    and "read_record s0 a = Some v"
  shows "read_record s a = Some v"
proof -
  from assms(2) obtain r where r: "objs s0 a = Some (RecordObj r)"
    by (auto simp add: read_record_def split: option.splits obj.splits)
  with assms(1) have r': "objs s a = Some (RecordObj r)" by simp
  show ?thesis
  proof (cases "convert r")
    case None
    with assms(2) r r' show ?thesis by (simp add: read_record_def)
  next
    case (Some ca)
    with assms(2) r obtain c where c: "read_convert s0 ca = Some c"
      by (auto simp add: read_record_def split: option.splits)
    from read_convert_same[OF assms(1) c] assms(2) r r' Some c show ?thesis
      by (simp add: read_record_def)
  qed
qed

lemma read_records_same:
  assumes "\<forall>a ob. objs s0 a = Some ob \<longrightarrow> objs s a = Some ob"
    and "read_records s0 as = Some v"
  shows "read_records s as = Some v"
  using assms(2)
proof (induction as arbitrary: v)
  case Nil
  then show ?case by simp
next
  case (Cons a rest)
  from Cons.prems obtain r rs where r: "read_record s0 a = Some r"
    and rs: "read_records s0 rest = Some rs" and v: "v = r # rs"
    by (auto split: option.splits)
  from read_record_same[OF assms(1) r] Cons.IH[OF rs] v show ?case by simp
qed

lemma read_list_same:
  assumes "\<forall>a ob. objs s0 a = Some ob \<longrightarrow> objs s a = Some ob"
    and "read_list s0 a = Some v"
  shows "read_list s a = Some v"
proof -
  from assms(2) obtain as where l: "objs s0 a = Some (ListObj as)"
    and rs: "read_records s0 as = Some v"
    by (auto simp add: read_list_def split: option.splits obj.splits)
  from assms(1) l have "objs s a = Some (ListObj as)" by simp
  with read_records_same[OF assms(1) rs] show ?thesis by (simp add: read_list_def)
qed

lemma read_entries_same:
  assumes "\<forall>a ob. objs s0 a = Some ob \<longrightarrow> objs s a = Some ob"
    and "read_entries s0 kvs = Some v"
  shows "read_entries s kvs = Some v"
  using assms(2)
proof (induction kvs arbitrary: v)
  case Nil
  then show ?case by simp
next
  case (Cons kv rest)
  from Cons.prems obtain ovs es where l: "read_list s0 (snd kv) = Some ovs"
    and es: "read_entries s0 rest = Some es" and v: "v = (fst kv, ovs) # es"
    by (auto split: option.splits)
  from read_list_same[OF assms(1) l] Cons.IH[OF es] v show ?case by simp
qed

lemma read_table_same:
  assumes "\<forall>a ob. objs s0 a = Some ob \<longrightarrow> objs s a = Some ob"
    and "read_table s0 a = Some v"
  shows "read_table s a = Some v"
proof -
  from assms(2) obtain kvs where t: "objs s0 a = Some (TableObj kvs)"
    and es: "read_entries s0 kvs = Some v"
    by (auto simp add: read_table_def split: option.splits obj.splits)
  from assms(1) t have "objs s a = Some (TableObj kvs)" by simp
  with read_entries_same[OF assms(1) es] show ?thesis by (simp add: read_table_def)
qed

lemma kept_objects:
  assumes "allocated s0" and "kept (next_addr s0) s0 s"
  shows "\<forall>a ob. objs s0 a = Some ob \<longrightarrow> objs s a = Some ob"
  using assms by (auto simp add: allocated_def kept_def)

subsection \<open>The call leaves the table of the caller as it is\<close>

lemma caller_allocated: "allocated caller_store"
  by (simp add: allocated_def caller_store_def)

lemma caller_read: "read_table caller_store 4 = Some fork_table"
  by code_simp

lemma caller_run_result:
  "fst (get_qnn_qdq_config_store caller_store fork_model QUInt8 QUInt8 (Some 4) True False)
     = Inr 9"
  by code_simp

lemma caller_run_table:
  "read_table (snd (get_qnn_qdq_config_store caller_store fork_model QUInt8 QUInt8 (Some 4)
     True False)) 9 = Some fork_resolved"
  by code_simp

text \<open>
  Claim C10. Let the store of the caller be one in which every address in use was handed
  out by the allocator, and let \<open>init\<close> be the address of a table in it, with the value
  \<open>tqo\<close>. After a call of \<^verbatim>\<open>get_qnn_qdq_config\<close> with this table as \<^verbatim>\<open>init_overrides\<close>,
  whether it returns or raises, the table at \<open>init\<close> still has the value \<open>tqo\<close>, and every
  object of the store of the caller is as it was: the resolver and the policy have
  written to objects of the copy and to new objects only.
\<close>

theorem caller_table_unchanged:
  assumes "allocated s0" and "read_table s0 init = Some tqo"
  shows "read_table (snd (get_qnn_qdq_config_store s0 model act wt (Some init) flag pc)) init
           = Some tqo
       \<and> (\<forall>a ob. objs s0 a = Some ob \<longrightarrow>
            objs (snd (get_qnn_qdq_config_store s0 model act wt (Some init) flag pc)) a
              = Some ob)"
proof -
  have "kept (next_addr s0) s0 s0"
    using assms(1) by (simp add: kept_start allocated_def)
  then have "kept (next_addr s0) s0
      (snd (get_qnn_qdq_config_store s0 model act wt (Some init) flag pc))"
    by (rule kept_get_qnn_qdq_config)
  from kept_objects[OF assms(1) this] read_table_same[OF _ assms(2)]
  show ?thesis by blast
qed

theorem caller_table_unchanged_witness:
  "read_table caller_store 4 = Some fork_table
   \<and> fst (get_qnn_qdq_config_store caller_store fork_model QUInt8 QUInt8 (Some 4) True False)
       = Inr 9
   \<and> read_table (snd (get_qnn_qdq_config_store caller_store fork_model QUInt8 QUInt8 (Some 4)
        True False)) 9 = Some fork_resolved
   \<and> read_table (snd (get_qnn_qdq_config_store caller_store fork_model QUInt8 QUInt8 (Some 4)
        True False)) 4 = Some fork_table"
  using caller_table_unchanged[OF caller_allocated caller_read, of fork_model QUInt8 QUInt8
      True False]
    caller_read caller_run_result caller_run_table
  by blast

end
